theory Spec2Isabelle
  imports Complex_Main "HOL-Library.Word"
begin

section \<open>JavaScript values\<close>

text \<open>
  A JavaScript number is modelled as an exact rational: rounding of IEEE doubles and the
  infinities are outside the model. The one place of the code that produces and tests
  \<^verbatim>\<open>NaN\<close> (\<^verbatim>\<open>parseFloat\<close> followed by \<^verbatim>\<open>isNaN\<close>) has it as \<open>None\<close>.
  An optional string property (\<^verbatim>\<open>string | null | undefined\<close>) is a \<open>string option\<close>.
\<close>

type_synonym number = rat

text \<open>Truthiness of an optional string: \<^verbatim>\<open>null\<close>, \<^verbatim>\<open>undefined\<close> and \<^verbatim>\<open>""\<close> are falsy.\<close>

definition truthy :: "string option \<Rightarrow> bool" where
  "truthy s = (case s of None \<Rightarrow> False | Some v \<Rightarrow> v \<noteq> [])"

text \<open>
  A thrown value, as a \<^verbatim>\<open>catch\<close> clause sees it: an instance of \<^verbatim>\<open>Error\<close> with its
  message, or any other value.
\<close>

datatype thrown = ErrorObject string | OtherThrown

section \<open>Score client (src/hooks/useBadges.ts, second part)\<close>

text \<open>
  \<^verbatim>\<open>LEVEL_RANGES\<close> is imported from \<^verbatim>\<open>@/lib/constants\<close>, which is not part of the sources at
  hand: the table is a parameter \<open>tbl\<close> of every function that reads it.
\<close>

record level_range =
  range_min :: number
  range_max :: number
  range_name :: string

text \<open>The \<^verbatim>\<open>score\<close> object of the endpoint's JSON answer; every property may be missing.\<close>

record score_json =
  points :: "number option"
  last_calculated_at :: "string option"
  calculating_score :: "bool option"
  calculating_score_enqueued_at :: "string option"

record data_json =
  data_error :: "string option"
  data_score :: "score_json option"

text \<open>
  What \<^verbatim>\<open>await response.json()\<close> yields: \<^verbatim>\<open>null\<close>, on which a property read throws a
  \<^verbatim>\<open>TypeError\<close>, or a value whose properties can be read (for a JSON number, string or
  array both \<^verbatim>\<open>error\<close> and \<^verbatim>\<open>score\<close> are \<^verbatim>\<open>undefined\<close>).
\<close>

datatype json_data = JsonNull | JsonObject data_json

text \<open>
  \<^verbatim>\<open>BuilderScore\<close> (\<^verbatim>\<open>CreatorScore\<close> is the same type). \<^verbatim>\<open>null\<close> and a missing
  property are both \<open>None\<close>.
\<close>

record BuilderScore =
  score :: number
  level :: int
  levelName :: string
  lastCalculatedAt :: "string option"
  walletAddress :: "string option"
  calculating :: "bool option"
  calculatingEnqueuedAt :: "string option"
  error :: "string option"

text \<open>\<^verbatim>\<open>Array.prototype.indexOf\<close>: the first position of the element, \<open>-1\<close> if there is none.\<close>

fun indexOf :: "'a list \<Rightarrow> 'a \<Rightarrow> int" where
  "indexOf [] x = - 1"
| "indexOf (y # ys) x =
     (if y = x then 0 else (let i = indexOf ys x in if i < 0 then - 1 else i + 1))"

definition in_range :: "number \<Rightarrow> level_range \<Rightarrow> bool" where
  "in_range p r = (p \<ge> range_min r \<and> p \<le> range_max r)"

text \<open>
  \<^verbatim>\<open>LEVEL_RANGES.find(...) || LEVEL_RANGES[0]\<close>; \<open>None\<close> is \<^verbatim>\<open>undefined\<close>, the value of
  \<^verbatim>\<open>LEVEL_RANGES[0]\<close> on an empty table.
\<close>

definition levelInfoFor :: "level_range list \<Rightarrow> number \<Rightarrow> level_range option" where
  "levelInfoFor tbl p =
     (case find (in_range p) tbl of
        Some r \<Rightarrow> Some r
      | None \<Rightarrow> (case tbl of [] \<Rightarrow> None | first # _ \<Rightarrow> Some first))"

text \<open>The record both early returns and the \<^verbatim>\<open>catch\<close> clause build, up to the message.\<close>

definition errorScore :: "string option \<Rightarrow> BuilderScore" where
  "errorScore msg =
     \<lparr>score = 0, level = 1, levelName = ''Level 1'', lastCalculatedAt = None,
      walletAddress = None, calculating = None, calculatingEnqueuedAt = None,
      error = msg\<rparr>"

definition catchScore :: "string \<Rightarrow> thrown \<Rightarrow> BuilderScore" where
  "catchScore fallback t =
     errorScore (Some (case t of ErrorObject message \<Rightarrow> message | OtherThrown \<Rightarrow> fallback))"

text \<open>
  The messages of the two \<^verbatim>\<open>TypeError\<close>s the body can raise by itself (reading
  \<^verbatim>\<open>error\<close> of \<^verbatim>\<open>null\<close>, reading \<^verbatim>\<open>name\<close> of \<^verbatim>\<open>undefined\<close>); the wording is the engine's.
\<close>

definition nullReadMessage :: string where
  "nullReadMessage = ''Cannot read properties of null (reading error)''"

definition undefinedReadMessage :: string where
  "undefinedReadMessage = ''Cannot read properties of undefined (reading name)''"

text \<open>The query string as the list of its parameters, in the order they are appended.\<close>

type_synonym query = "(string \<times> string) list"

definition scoreQuery :: "string \<Rightarrow> string \<Rightarrow> query" where
  "scoreQuery address scorerSlug =
     [(''address'', address)]
     @ (if scorerSlug \<noteq> [] then [(''scorer_slug'', scorerSlug)] else [])
     @ [(''account_source'', ''wallet'')]"

text \<open>\<^verbatim>\<open>data.score?.points ?? 0\<close>\<close>

definition pointsOf :: "data_json \<Rightarrow> number" where
  "pointsOf data =
     (case data_score data of None \<Rightarrow> 0
      | Some s \<Rightarrow> (case points s of None \<Rightarrow> 0 | Some p \<Rightarrow> p))"

text \<open>
  \<^verbatim>\<open>getScoreForAddress\<close>. \<open>api\<close> is the outcome of \<^verbatim>\<open>fetch\<close> followed by
  \<^verbatim>\<open>response.json()\<close> for a query: \<open>Inl\<close> when either rejects. The whole body is inside
  \<^verbatim>\<open>try\<close>, and the \<^verbatim>\<open>catch\<close> clause cannot throw, so the result is always a record.
\<close>

definition getScoreForAddress ::
  "level_range list \<Rightarrow> (query \<Rightarrow> thrown + json_data) \<Rightarrow> string \<Rightarrow> string \<Rightarrow> BuilderScore" where
  "getScoreForAddress tbl api address scorerSlug =
     (case api (scoreQuery address scorerSlug) of
        Inl t \<Rightarrow> catchScore ''Failed to fetch score'' t
      | Inr JsonNull \<Rightarrow> catchScore ''Failed to fetch score'' (ErrorObject nullReadMessage)
      | Inr (JsonObject data) \<Rightarrow>
          if truthy (data_error data) then errorScore (data_error data)
          else
            let pts = pointsOf data;
                lastCalc = (case data_score data of None \<Rightarrow> None
                            | Some s \<Rightarrow> last_calculated_at s);
                calc = (case data_score data of None \<Rightarrow> False
                        | Some s \<Rightarrow> (case calculating_score s of None \<Rightarrow> False | Some b \<Rightarrow> b));
                enq = (case data_score data of None \<Rightarrow> None
                       | Some s \<Rightarrow> calculating_score_enqueued_at s)
            in (case levelInfoFor tbl pts of
                  None \<Rightarrow> catchScore ''Failed to fetch score'' (ErrorObject undefinedReadMessage)
                | Some levelInfo \<Rightarrow>
                    \<lparr>score = pts, level = indexOf tbl levelInfo + 1,
                     levelName = range_name levelInfo, lastCalculatedAt = lastCalc,
                     walletAddress = Some address, calculating = Some calc,
                     calculatingEnqueuedAt = enq, error = None\<rparr>))"

text \<open>
  \<^verbatim>\<open>String.prototype.toLowerCase\<close> on the characters of a wallet address: the ASCII
  capitals move to their small letters, every other byte stays.
\<close>

definition isUpper :: "char \<Rightarrow> bool" where
  "isUpper c = (65 \<le> (of_char c :: nat) \<and> (of_char c :: nat) \<le> 90)"

definition toLowerChar :: "char \<Rightarrow> char" where
  "toLowerChar c = (if isUpper c then char_of ((of_char c :: nat) + 32) else c)"

definition toLowerCase :: "string \<Rightarrow> string" where
  "toLowerCase s = map toLowerChar s"

text \<open>
  \<^verbatim>\<open>validScores.reduce((highest, current) => ...)\<close> without an initial value, on a
  non-empty array: the first element starts as \<open>highest\<close>.
\<close>

definition pickHigher :: "BuilderScore \<Rightarrow> BuilderScore \<Rightarrow> BuilderScore" where
  "pickHigher highest current = (if score current > score highest then current else highest)"

text \<open>
  \<^verbatim>\<open>getHighestScore\<close>, with its two local arrays \<^verbatim>\<open>scores\<close> and \<^verbatim>\<open>validScores\<close>.
  \<^verbatim>\<open>Promise.all\<close> keeps the order of the addresses; no \<^verbatim>\<open>getScoreForAddress\<close> promise
  rejects, so the \<^verbatim>\<open>catch\<close> clause of this function has no input that reaches it.
\<close>

definition scoresOf ::
  "level_range list \<Rightarrow> (query \<Rightarrow> thrown + json_data) \<Rightarrow> string list \<Rightarrow> string \<Rightarrow> BuilderScore list" where
  "scoresOf tbl api addresses scorerSlug =
     map (\<lambda>addr. getScoreForAddress tbl api (toLowerCase addr) scorerSlug) addresses"

definition validScoresOf ::
  "level_range list \<Rightarrow> (query \<Rightarrow> thrown + json_data) \<Rightarrow> string list \<Rightarrow> string \<Rightarrow> BuilderScore list" where
  "validScoresOf tbl api addresses scorerSlug =
     filter (\<lambda>s. \<not> truthy (error s)) (scoresOf tbl api addresses scorerSlug)"

definition getHighestScore ::
  "level_range list \<Rightarrow> (query \<Rightarrow> thrown + json_data) \<Rightarrow> string list \<Rightarrow> string \<Rightarrow> BuilderScore" where
  "getHighestScore tbl api addresses scorerSlug =
     (if addresses = [] then errorScore (Some ''No wallet addresses provided'')
      else
        (case validScoresOf tbl api addresses scorerSlug of
           [] \<Rightarrow> errorScore (Some ''No valid scores found'')
         | first # rest \<Rightarrow> foldl pickHigher first rest))"

text \<open>
  A table and an endpoint to run the score client on: the wallet \<open>0xa\<close> has 10 points,
  \<open>0xb\<close> has 25, \<open>0x19\<close> has 19, \<open>0x20\<close> has 20, \<open>0xf\<close> has 5000, every other request
  fails.
\<close>

definition sampleRanges :: "level_range list" where
  "sampleRanges =
     [\<lparr>range_min = 0, range_max = 19, range_name = ''Level 1''\<rparr>,
      \<lparr>range_min = 20, range_max = 39, range_name = ''Level 2''\<rparr>,
      \<lparr>range_min = 40, range_max = 1000, range_name = ''Level 3''\<rparr>]"

definition samplePoints :: "number \<Rightarrow> data_json" where
  "samplePoints p =
     \<lparr>data_error = None,
      data_score = Some \<lparr>points = Some p, last_calculated_at = None,
                         calculating_score = None,
                         calculating_score_enqueued_at = None\<rparr>\<rparr>"

definition sampleApi :: "query \<Rightarrow> thrown + json_data" where
  "sampleApi q =
     (if q = scoreQuery ''0xa'' ''creator_score'' then Inr (JsonObject (samplePoints 10))
      else if q = scoreQuery ''0xb'' ''creator_score'' then Inr (JsonObject (samplePoints 25))
      else if q = scoreQuery ''0x19'' ''creator_score'' then Inr (JsonObject (samplePoints 19))
      else if q = scoreQuery ''0x20'' ''creator_score'' then Inr (JsonObject (samplePoints 20))
      else if q = scoreQuery ''0xf'' ''creator_score'' then Inr (JsonObject (samplePoints 5000))
      else Inl (ErrorObject ''fetch failed''))"

text \<open>
  An endpoint on which the wallet \<open>0xb\<close> has 0 points and every other request is
  rejected with an \<^verbatim>\<open>Error\<close> whose message is empty.
\<close>

definition emptyMessageApi :: "query \<Rightarrow> thrown + json_data" where
  "emptyMessageApi q =
     (if q = scoreQuery ''0xb'' ''creator_score'' then Inr (JsonObject (samplePoints 0))
      else Inl (ErrorObject []))"

section \<open>Credential aggregator (src/app/api/share-image/[talentUUID]/route.tsx)\<close>

record credential_point =
  slug :: "string option"
  readable_value :: "string option"
  uom :: "string option"

record credential_group =
  issuer :: string
  group_points :: "credential_point list"

text \<open>
  The character class of \<^verbatim>\<open>/[^0-9.KM-]+/g\<close>: the characters the replacement keeps. A
  string is a list of bytes here; every byte of a character outside ASCII is above 127
  and is removed, as the character itself is by the regular expression.
\<close>

definition isDigit :: "char \<Rightarrow> bool" where
  "isDigit c = (48 \<le> (of_char c :: nat) \<and> (of_char c :: nat) \<le> 57)"

definition keptChar :: "char \<Rightarrow> bool" where
  "keptChar c = (isDigit c \<or> c = CHR ''.'' \<or> c = CHR ''K'' \<or> c = CHR ''M'' \<or> c = CHR ''-'')"

text \<open>\<^verbatim>\<open>cleanValue.replace(/[^0-9.KM-]+/g, "")\<close>: every run of other characters is removed.\<close>

definition stripValue :: "string \<Rightarrow> string" where
  "stripValue cleanValue = filter keptChar cleanValue"

text \<open>\<^verbatim>\<open>s.replace("K", "")\<close> with a string pattern removes the first occurrence only.\<close>

definition replaceFirst :: "char \<Rightarrow> string \<Rightarrow> string" where
  "replaceFirst c s = remove1 c s"

definition digitsValue :: "string \<Rightarrow> nat" where
  "digitsValue ds = foldl (\<lambda>acc c. 10 * acc + ((of_char c :: nat) - 48)) 0 ds"

text \<open>
  \<^verbatim>\<open>parseFloat\<close> on a stripped string. Of the grammar of \<^verbatim>\<open>parseFloat\<close> (white space, a
  sign, \<^verbatim>\<open>Infinity\<close>, digits with a point and an exponent) only an optional \<^verbatim>\<open>-\<close>, digits
  and one point can occur in a string of kept characters. The longest prefix that is a
  decimal literal is read; \<open>None\<close> is \<^verbatim>\<open>NaN\<close>, when there is no such prefix.
\<close>

definition parseFloat :: "string \<Rightarrow> number option" where
  "parseFloat s =
     (let negative = (case s of [] \<Rightarrow> False | c # _ \<Rightarrow> c = CHR ''-'');
          unsigned = (if negative then tl s else s);
          intPart = takeWhile isDigit unsigned;
          afterInt = dropWhile isDigit unsigned;
          fracPart = (case afterInt of [] \<Rightarrow> []
                      | c # cs \<Rightarrow> if c = CHR ''.'' then takeWhile isDigit cs else [])
      in if intPart = [] \<and> fracPart = [] then None
         else Some ((if negative then - 1 else 1)
                * (of_nat (digitsValue intPart)
                   + of_nat (digitsValue fracPart) / 10 ^ length fracPart)))"

text \<open>Lines 126-136: the value of a \<^verbatim>\<open>readable_value\<close>; \<open>None\<close> is \<^verbatim>\<open>NaN\<close>.\<close>

definition parseValue :: "string \<Rightarrow> number option" where
  "parseValue cleanValue =
     (let numericValue = stripValue cleanValue
      in if CHR ''K'' \<in> set numericValue
           then map_option (\<lambda>v. v * 1000) (parseFloat (replaceFirst CHR ''K'' numericValue))
         else if CHR ''M'' \<in> set numericValue
           then map_option (\<lambda>v. v * 1000000) (parseFloat (replaceFirst CHR ''M'' numericValue))
         else parseFloat numericValue)"

text \<open>
  Modelled from the spec: \<^verbatim>\<open>convertEthToUsdc\<close> of \<^verbatim>\<open>@/lib/utils\<close> is not part of the
  sources at hand. The spec has "convert ETH-denominated values using the supplied rate"
  and "ETH-denominated 1 at rate 3000 gives 3000".
\<close>

definition convertEthToUsdc :: "number \<Rightarrow> number \<Rightarrow> number" where
  "convertEthToUsdc ethAmount ethPrice = ethAmount * ethPrice"

text \<open>\<^verbatim>\<open>point.slug || ""\<close>\<close>

definition slugOrEmpty :: "credential_point \<Rightarrow> string" where
  "slugOrEmpty point = (case slug point of None \<Rightarrow> [] | Some s \<Rightarrow> s)"

text \<open>
  The callback of the inner \<^verbatim>\<open>forEach\<close> (lines 116-151), as the new value of
  \<^verbatim>\<open>issuerTotal\<close>; each \<^verbatim>\<open>return\<close> leaves it as it was. \<^verbatim>\<open>isEarningsCredential\<close> of
  \<^verbatim>\<open>@/lib/total-earnings-config\<close> is not part of the sources at hand and is the parameter
  \<open>isEarn\<close>; \<open>conv\<close> stands for \<^verbatim>\<open>convertEthToUsdc\<close>.
\<close>

definition addPoint ::
  "(string \<Rightarrow> bool) \<Rightarrow> (number \<Rightarrow> number \<Rightarrow> number) \<Rightarrow> number \<Rightarrow> number \<Rightarrow> credential_point \<Rightarrow> number" where
  "addPoint isEarn conv ethPrice issuerTotal point =
     (if \<not> isEarn (slugOrEmpty point) then issuerTotal
      else if \<not> truthy (readable_value point) \<or> \<not> truthy (uom point) then issuerTotal
      else (case readable_value point of
              None \<Rightarrow> issuerTotal
            | Some cleanValue \<Rightarrow>
                (case parseValue cleanValue of
                   None \<Rightarrow> issuerTotal
                 | Some v \<Rightarrow>
                     let usdValue = (if uom point = Some ''ETH'' then conv v ethPrice
                                     else if uom point = Some ''USDC'' then v
                                     else 0)
                     in issuerTotal + usdValue)))"

definition groupTotal ::
  "(string \<Rightarrow> bool) \<Rightarrow> (number \<Rightarrow> number \<Rightarrow> number) \<Rightarrow> number \<Rightarrow> credential_group \<Rightarrow> number" where
  "groupTotal isEarn conv ethPrice g = foldl (addPoint isEarn conv ethPrice) 0 (group_points g)"

definition hasEarningsCredentials :: "(string \<Rightarrow> bool) \<Rightarrow> credential_group \<Rightarrow> bool" where
  "hasEarningsCredentials isEarn g = list_ex (\<lambda>point. isEarn (slugOrEmpty point)) (group_points g)"

text \<open>
  A \<^verbatim>\<open>Map<string, number>\<close> as the list of its entries in insertion order.
  \<^verbatim>\<open>Map.prototype.set\<close> replaces the value of a key that is there and adds a new key at
  the end.
\<close>

type_synonym issuer_totals = "(string \<times> number) list"

fun mapSet :: "issuer_totals \<Rightarrow> string \<Rightarrow> number \<Rightarrow> issuer_totals" where
  "mapSet [] k v = [(k, v)]"
| "mapSet ((k', v') # m) k v = (if k' = k then (k, v) # m else (k', v') # mapSet m k v)"

text \<open>The callback of the outer \<^verbatim>\<open>forEach\<close> (lines 103-156), as the new map.\<close>

definition addGroup ::
  "(string \<Rightarrow> bool) \<Rightarrow> (number \<Rightarrow> number \<Rightarrow> number) \<Rightarrow> number \<Rightarrow> issuer_totals \<Rightarrow> credential_group \<Rightarrow> issuer_totals" where
  "addGroup isEarn conv ethPrice issuerTotals g =
     (if \<not> hasEarningsCredentials isEarn g then issuerTotals
      else let issuerTotal = groupTotal isEarn conv ethPrice g
           in if issuerTotal > 0 then mapSet issuerTotals (issuer g) issuerTotal
              else issuerTotals)"

definition issuerTotalsOf ::
  "(string \<Rightarrow> bool) \<Rightarrow> (number \<Rightarrow> number \<Rightarrow> number) \<Rightarrow> number \<Rightarrow> credential_group list \<Rightarrow> issuer_totals" where
  "issuerTotalsOf isEarn conv ethPrice credentials =
     foldl (addGroup isEarn conv ethPrice) [] credentials"

text \<open>\<^verbatim>\<open>Array.from(issuerTotals.values()).reduce((sum, value) => sum + value, 0)\<close>\<close>

definition totalEarningsOf ::
  "(string \<Rightarrow> bool) \<Rightarrow> (number \<Rightarrow> number \<Rightarrow> number) \<Rightarrow> number \<Rightarrow> credential_group list \<Rightarrow> number" where
  "totalEarningsOf isEarn conv ethPrice credentials =
     foldl (\<lambda>sum v. sum + v) 0 (map snd (issuerTotalsOf isEarn conv ethPrice credentials))"

text \<open>
  The two guards of the outer callback together (lines 109 and 153): a group whose total
  is stored in the map.
\<close>

definition countedGroup ::
  "(string \<Rightarrow> bool) \<Rightarrow> (number \<Rightarrow> number \<Rightarrow> number) \<Rightarrow> number \<Rightarrow> credential_group \<Rightarrow> bool" where
  "countedGroup isEarn conv ethPrice g =
     (hasEarningsCredentials isEarn g \<and> groupTotal isEarn conv ethPrice g > 0)"

text \<open>What holds of the map after any number of groups: the invariant of the outer loop.\<close>

definition goodTotals ::
  "(string \<Rightarrow> bool) \<Rightarrow> (number \<Rightarrow> number \<Rightarrow> number) \<Rightarrow> number \<Rightarrow> credential_group list \<Rightarrow> issuer_totals \<Rightarrow> bool" where
  "goodTotals isEarn conv ethPrice gs m =
     (distinct (map fst m)
      \<and> (\<forall>e\<in>set m. snd e > 0
             \<and> (\<exists>g\<in>set gs. issuer g = fst e \<and> countedGroup isEarn conv ethPrice g
                              \<and> groupTotal isEarn conv ethPrice g = snd e)))"

text \<open>
  Credential groups to run the aggregator on. The slug \<open>earnings\<close> stands for an
  earnings credential.
\<close>

definition sampleIsEarn :: "string \<Rightarrow> bool" where
  "sampleIsEarn s = (s = ''earnings'')"

definition samplePoint :: "string \<Rightarrow> string \<Rightarrow> string \<Rightarrow> credential_point" where
  "samplePoint s rv u = \<lparr>slug = Some s, readable_value = Some rv, uom = Some u\<rparr>"

definition sampleGroups :: "credential_group list" where
  "sampleGroups =
     [\<lparr>issuer = ''zora'',
       group_points = [samplePoint ''earnings'' ''$1.5K'' ''USDC'',
                       samplePoint ''earnings'' ''1'' ''ETH'',
                       samplePoint ''followers'' ''700'' ''USDC'']\<rparr>,
      \<lparr>issuer = ''mirror'',
       group_points = [samplePoint ''earnings'' ''abc'' ''USDC'',
                       samplePoint ''earnings'' ''12'' ''DAI'']\<rparr>,
      \<lparr>issuer = ''lens'',
       group_points = [samplePoint ''followers'' ''2M'' ''USDC'']\<rparr>]"

definition sameIssuerGroups :: "credential_group list" where
  "sameIssuerGroups =
     [\<lparr>issuer = ''zora'', group_points = [samplePoint ''earnings'' ''10'' ''USDC'']\<rparr>,
      \<lparr>issuer = ''zora'', group_points = [samplePoint ''earnings'' ''5'' ''USDC'']\<rparr>]"

section \<open>Share image endpoint (src/app/api/share-image/[talentUUID]/route.tsx)\<close>

text \<open>
  The route parameter is a JavaScript string, a list of UTF-16 code units, since
  \<^verbatim>\<open>charCodeAt\<close> reads one of them.
\<close>

type_synonym utf16 = "16 word list"

type_synonym bytes = "nat list"

typedecl social_account

record profile_data =
  display_name :: "string option"
  name :: "string option"
  image_url :: "string option"

text \<open>The answer of \<^verbatim>\<open>talentApiClient.getProfile\<close>; \<open>json\<close> is what \<^verbatim>\<open>response.json()\<close> does.\<close>

record profile_response =
  ok :: bool
  status :: nat
  json :: "thrown + profile_data"

text \<open>The object the cached callback returns, \<^verbatim>\<open>{ ok: true, data: profileData }\<close>.\<close>

record cached_profile =
  cached_ok :: bool
  cached_data :: profile_data

text \<open>What the layout is built from (lines 163-184 and the element tree).\<close>

record share_image_payload =
  displayName :: string
  avatar :: "string option"
  totalFollowers :: number
  creatorScore :: number
  totalEarnings :: number
  backgroundImage :: string

text \<open>
  Everything the handler awaits, for one request: each call either rejects (\<open>Inl\<close>) or
  yields a value. \<^verbatim>\<open>unstable_cache\<close> is taken as given: it yields what its callback
  yields, now or at an earlier call, and a rejection of the callback passes through it.
  \<open>renderImage\<close> stands for \<^verbatim>\<open>new ImageResponse\<close> with the emoji stripping and the number
  formatting of the element tree.
\<close>

record upstream =
  getProfile :: "utf16 \<Rightarrow> thrown + profile_response"
  getSocialAccountsForTalentId :: "utf16 \<Rightarrow> thrown + social_account list"
  getCredentialsForTalentId :: "utf16 \<Rightarrow> thrown + credential_group list"
  getCreatorScoreForTalentId :: "utf16 \<Rightarrow> thrown + BuilderScore"
  getEthUsdcPrice :: "thrown + number"
  fetchFont :: "string \<Rightarrow> thrown + bytes"
  renderImage :: "share_image_payload \<Rightarrow> bytes list \<Rightarrow> thrown + bytes"

datatype response_body = JsonError string | ImageBody share_image_payload bytes

record http_response =
  res_status :: nat
  res_body :: response_body
  res_headers :: "(string \<times> string) list"

definition digitChar :: "nat \<Rightarrow> char" where
  "digitChar d = char_of (48 + d)"

function decimal :: "nat \<Rightarrow> string" where
  "decimal n = (if n < 10 then [digitChar n] else decimal (n div 10) @ [digitChar (n mod 10)])"
  by pat_completeness auto
termination
  by (relation "measure (\<lambda>n. n)") auto

text \<open>The callback given to \<^verbatim>\<open>unstable_cache\<close> for the profile (lines 30-42).\<close>

definition profileCallback :: "upstream \<Rightarrow> utf16 \<Rightarrow> thrown + cached_profile" where
  "profileCallback up talentUUID =
     (case getProfile up talentUUID of
        Inl t \<Rightarrow> Inl t
      | Inr response \<Rightarrow>
          if \<not> ok response
            then Inl (ErrorObject (''Profile not found: '' @ decimal (status response)))
          else (case json response of
                  Inl t \<Rightarrow> Inl t
                | Inr profileData \<Rightarrow> Inr \<lparr>cached_ok = True, cached_data = profileData\<rparr>))"

text \<open>\<^verbatim>\<open>a || b\<close> on an optional string and a string.\<close>

definition orString :: "string option \<Rightarrow> string \<Rightarrow> string" where
  "orString a b = (case a of None \<Rightarrow> b | Some v \<Rightarrow> if v = [] then b else v)"

text \<open>\<^verbatim>\<open>promise.catch(() => dflt)\<close>\<close>

definition orDefault :: "thrown + 'a \<Rightarrow> 'a \<Rightarrow> 'a" where
  "orDefault r dflt = (case r of Inl _ \<Rightarrow> dflt | Inr v \<Rightarrow> v)"

text \<open>
  \<^verbatim>\<open>Promise.all\<close> over calls that may reject: the values in order, or a rejection. Which
  rejection it is when several calls reject depends on their timing; the handler does
  not look at it.
\<close>

fun promiseAll :: "(thrown + 'a) list \<Rightarrow> thrown + 'a list" where
  "promiseAll [] = Inr []"
| "promiseAll (Inl t # rs) = Inl t"
| "promiseAll (Inr v # rs) = (case promiseAll rs of Inl t \<Rightarrow> Inl t | Inr vs \<Rightarrow> Inr (v # vs))"

text \<open>\<^verbatim>\<open>talentUUID.charCodeAt(0)\<close>; \<open>None\<close> is \<^verbatim>\<open>NaN\<close>, on the empty string.\<close>

definition charCodeAt0 :: "utf16 \<Rightarrow> nat option" where
  "charCodeAt0 s = (case s of [] \<Rightarrow> None | c # _ \<Rightarrow> Some (unat c))"

text \<open>Lines 182-184. \<^verbatim>\<open>NaN % 2\<close> is \<^verbatim>\<open>NaN\<close>, which is not \<^verbatim>\<open>=== 0\<close>.\<close>

definition backgroundIndex :: "utf16 \<Rightarrow> nat option" where
  "backgroundIndex talentUUID = map_option (\<lambda>code. code mod 2) (charCodeAt0 talentUUID)"

definition backgroundImageFor :: "utf16 \<Rightarrow> string" where
  "backgroundImageFor talentUUID =
     (if backgroundIndex talentUUID = Some 0 then ''background.png'' else ''background-2.png'')"

definition fontFiles :: "string list" where
  "fontFiles = [''/fonts/Cy Regular.ttf'', ''/fonts/Cy Bold.ttf'',
                ''/fonts/Cy SemiBold.ttf'', ''/fonts/Cy ExtraBold.ttf'']"

text \<open>
  What the handler computes between the profile and the fonts (lines 59-184), given the
  profile data and the exchange rate. \<^verbatim>\<open>isEarningsCredential\<close> and
  \<^verbatim>\<open>calculateTotalFollowers\<close> are imported from files that are not part of the sources
  at hand; they are the parameters \<open>isEarn\<close> and \<open>followers\<close>. The three fetches default
  to \<^verbatim>\<open>[]\<close>, \<^verbatim>\<open>[]\<close> and \<^verbatim>\<open>{ score: 0 }\<close> when they reject; \<^verbatim>\<open>creatorScoreData.score || 0\<close>
  is the score itself, since the score is a number.
\<close>

definition payloadOf ::
  "(string \<Rightarrow> bool) \<Rightarrow> (social_account list \<Rightarrow> number) \<Rightarrow> upstream \<Rightarrow> utf16 \<Rightarrow> profile_data \<Rightarrow> number \<Rightarrow> share_image_payload" where
  "payloadOf isEarn followers up talentUUID profileData ethPrice =
     (let socialAccounts = orDefault (getSocialAccountsForTalentId up talentUUID) [];
          credentials = orDefault (getCredentialsForTalentId up talentUUID) [];
          scoreOfData = (case getCreatorScoreForTalentId up talentUUID of
                           Inl _ \<Rightarrow> 0 | Inr creatorScoreData \<Rightarrow> score creatorScoreData)
      in \<lparr>displayName = orString (display_name profileData)
                          (orString (name profileData) ''Creator''),
          avatar = image_url profileData,
          totalFollowers = followers socialAccounts,
          creatorScore = scoreOfData,
          totalEarnings = totalEarningsOf isEarn convertEthToUsdc ethPrice credentials,
          backgroundImage = backgroundImageFor talentUUID\<rparr>)"

definition imageAnswer :: "share_image_payload \<Rightarrow> bytes \<Rightarrow> http_response" where
  "imageAnswer payload png =
     \<lparr>res_status = 200, res_body = ImageBody payload png,
      res_headers = [(''Cache-Control'', ''public, max-age=3600''),
                     (''Access-Control-Allow-Origin'', ''*'')]\<rparr>"

text \<open>
  The \<^verbatim>\<open>try\<close> block of \<^verbatim>\<open>GET\<close>: \<open>Inl\<close> is a value thrown inside it. The exchange rate
  is awaited after the three fetches and before the fonts.
\<close>

definition tryGET ::
  "(string \<Rightarrow> bool) \<Rightarrow> (social_account list \<Rightarrow> number) \<Rightarrow> upstream \<Rightarrow> utf16 \<Rightarrow> thrown + http_response" where
  "tryGET isEarn followers up talentUUID =
     (case profileCallback up talentUUID of
        Inl t \<Rightarrow> Inl t
      | Inr profileResponse \<Rightarrow>
          if \<not> cached_ok profileResponse
            then Inr \<lparr>res_status = 404, res_body = JsonError ''Profile not found'',
                      res_headers = []\<rparr>
          else
            (case getEthUsdcPrice up of
               Inl t \<Rightarrow> Inl t
             | Inr ethPrice \<Rightarrow>
                 let payload = payloadOf isEarn followers up talentUUID
                                 (cached_data profileResponse) ethPrice
                 in (case promiseAll (map (fetchFont up) fontFiles) of
                       Inl t \<Rightarrow> Inl t
                     | Inr fonts \<Rightarrow>
                         (case renderImage up payload fonts of
                            Inl t \<Rightarrow> Inl t
                          | Inr png \<Rightarrow> Inr (imageAnswer payload png)))))"

text \<open>The answer the \<^verbatim>\<open>catch\<close> clause of \<^verbatim>\<open>GET\<close> builds (lines 385-393).\<close>

definition serverError :: http_response where
  "serverError =
     \<lparr>res_status = 500, res_body = JsonError ''Failed to generate image'',
      res_headers = [(''Access-Control-Allow-Origin'', ''*'')]\<rparr>"

text \<open>\<^verbatim>\<open>GET\<close>: the \<^verbatim>\<open>catch\<close> clause turns every thrown value into the same answer.\<close>

definition GET ::
  "(string \<Rightarrow> bool) \<Rightarrow> (social_account list \<Rightarrow> number) \<Rightarrow> upstream \<Rightarrow> utf16 \<Rightarrow> http_response" where
  "GET isEarn followers up talentUUID =
     (case tryGET isEarn followers up talentUUID of
        Inl _ \<Rightarrow> serverError
      | Inr response \<Rightarrow> response)"

text \<open>
  Upstreams to run the handler on. \<open>knownSubject\<close> answers every call; \<open>otherSubject\<close>
  does too, with other data; for \<open>unknownSubject\<close> the profile request is answered with
  status 404 (\<^verbatim>\<open>response.ok\<close> is false).
\<close>

definition knownSubject :: upstream where
  "knownSubject =
     \<lparr>getProfile = (\<lambda>_. Inr \<lparr>ok = True, status = 200,
                                json = Inr \<lparr>display_name = Some ''Ada'', name = None,
                                            image_url = None\<rparr>\<rparr>),
      getSocialAccountsForTalentId = (\<lambda>_. Inr []),
      getCredentialsForTalentId = (\<lambda>_. Inr sampleGroups),
      getCreatorScoreForTalentId = (\<lambda>_. Inl (ErrorObject ''timeout'')),
      getEthUsdcPrice = Inr 3000,
      fetchFont = (\<lambda>_. Inr [0, 1, 0, 0]),
      renderImage = (\<lambda>_ _. Inr [137, 80, 78, 71])\<rparr>"

definition otherSubject :: upstream where
  "otherSubject =
     \<lparr>getProfile = (\<lambda>_. Inr \<lparr>ok = True, status = 200,
                                json = Inr \<lparr>display_name = None, name = Some ''Grace'',
                                            image_url = Some ''https://example.org/g.png''\<rparr>\<rparr>),
      getSocialAccountsForTalentId = (\<lambda>_. Inl OtherThrown),
      getCredentialsForTalentId = (\<lambda>_. Inr sameIssuerGroups),
      getCreatorScoreForTalentId = (\<lambda>_. Inr (errorScore None)),
      getEthUsdcPrice = Inr 2500,
      fetchFont = (\<lambda>_. Inr [0, 1, 0, 0]),
      renderImage = (\<lambda>_ _. Inr [137, 80, 78, 71, 13])\<rparr>"

definition unknownSubject :: upstream where
  "unknownSubject =
     \<lparr>getProfile = (\<lambda>_. Inr \<lparr>ok = False, status = 404,
                                json = Inr \<lparr>display_name = None, name = None,
                                            image_url = None\<rparr>\<rparr>),
      getSocialAccountsForTalentId = (\<lambda>_. Inr []),
      getCredentialsForTalentId = (\<lambda>_. Inr []),
      getCreatorScoreForTalentId = (\<lambda>_. Inr (errorScore None)),
      getEthUsdcPrice = Inr 3000,
      fetchFont = (\<lambda>_. Inr [0, 1, 0, 0]),
      renderImage = (\<lambda>_ _. Inr [137, 80, 78, 71])\<rparr>"

text \<open>The identifier \<open>a1\<close> as code units.\<close>

definition sampleUUID :: utf16 where
  "sampleUUID = [97, 49]"

section \<open>Refresh controller (src/hooks/useScoreRefresh.ts)\<close>

record AnalyticsData =
  a_creatorScore :: "number option"
  a_totalEarnings :: "number option"
  a_totalFollowers :: "number option"
  a_isOwnProfile :: "bool option"
  a_hasScore :: "bool option"
  a_isInCooldown :: "bool option"
  a_isCalculating :: "bool option"

text \<open>What \<^verbatim>\<open>triggerScoreCalculation\<close> resolves to.\<close>

record trigger_result =
  success :: bool
  result_error :: "string option"

text \<open>
  The hook's state: the three \<^verbatim>\<open>useState\<close> cells (\<open>refreshError\<close> is the cell named
  \<^verbatim>\<open>error\<close>) and the \<^verbatim>\<open>useRef\<close> cell, with what the hook has done to the outside:
  \<open>inFlight\<close> counts the \<^verbatim>\<open>triggerScoreCalculation\<close> calls issued and not yet settled,
  \<open>issued\<close> lists the identifiers they were issued for, \<open>captured\<close> the analytics events,
  \<open>timers\<close> counts the \<^verbatim>\<open>setTimeout\<close> calls that schedule \<^verbatim>\<open>onSuccess\<close>. The cell
  \<open>isRefreshing\<close> holds what the next render will read. \<open>renderedIsRefreshing\<close> is the
  \<^verbatim>\<open>isRefreshing\<close> constant of the latest render, the value the \<^verbatim>\<open>refreshScore\<close> function
  of that render closes over: a \<^verbatim>\<open>setIsRefreshing\<close> call changes the cell and not this
  constant.
\<close>

record controller =
  isRefreshing :: bool
  renderedIsRefreshing :: bool
  successMessage :: "string option"
  refreshError :: "string option"
  hasCalledSuccessRef :: bool
  inFlight :: nat
  issued :: "string list"
  captured :: "AnalyticsData list"
  timers :: nat

definition initialController :: controller where
  "initialController =
     \<lparr>isRefreshing = False, renderedIsRefreshing = False, successMessage = None,
      refreshError = None, hasCalledSuccessRef = False, inFlight = 0, issued = [],
      captured = [], timers = 0\<rparr>"

definition clearError :: "controller \<Rightarrow> controller" where
  "clearError c = c\<lparr>refreshError := None\<rparr>"

text \<open>
  \<^verbatim>\<open>refreshScore\<close> up to its \<^verbatim>\<open>await\<close> (lines 39-61): the guard, the analytics event, the
  four assignments and the call of \<^verbatim>\<open>triggerScoreCalculation\<close>. \<^verbatim>\<open>posthog.capture\<close> is
  taken to return normally. The guard reads \<open>isRefreshingConst\<close>, the \<^verbatim>\<open>isRefreshing\<close>
  constant of the render that made this function; the assignments go to the cells.
\<close>

definition refreshScore ::
  "string \<Rightarrow> AnalyticsData option \<Rightarrow> bool \<Rightarrow> controller \<Rightarrow> controller" where
  "refreshScore talentUUID analyticsData isRefreshingConst c =
     (if talentUUID = [] \<or> isRefreshingConst then c
      else
        let c1 = (case analyticsData of None \<Rightarrow> c
                  | Some a \<Rightarrow> c\<lparr>captured := captured c @ [a]\<rparr>)
        in c1\<lparr>isRefreshing := True, refreshError := None, successMessage := None,
              hasCalledSuccessRef := False,
              inFlight := inFlight c1 + 1, issued := issued c1 @ [talentUUID]\<rparr>)"

text \<open>
  \<^verbatim>\<open>refreshScore\<close> after its \<^verbatim>\<open>await\<close> (lines 63-90), once the call has settled: \<open>Inl\<close> is
  a rejection, which the \<^verbatim>\<open>catch\<close> clause handles. \<open>onSuccess\<close> tells whether the hook
  was given the callback.
\<close>

definition refreshSettled :: "bool \<Rightarrow> thrown + trigger_result \<Rightarrow> controller \<Rightarrow> controller" where
  "refreshSettled onSuccess outcome c =
     (let c0 = c\<lparr>inFlight := inFlight c - 1\<rparr>
      in case outcome of
           Inr result \<Rightarrow>
             if success result then
               let c1 = c0\<lparr>successMessage := Some ''Calculation enqueued''\<rparr>
               in if onSuccess \<and> \<not> hasCalledSuccessRef c1
                    then c1\<lparr>hasCalledSuccessRef := True, timers := timers c1 + 1\<rparr>
                  else c1
             else
               c0\<lparr>refreshError := Some (orString (result_error result) ''Failed to trigger calculation''),
                  isRefreshing := False\<rparr>
         | Inl err \<Rightarrow>
             c0\<lparr>refreshError := Some (case err of ErrorObject message \<Rightarrow> message
                                       | OtherThrown \<Rightarrow> ''Failed to trigger calculation''),
                isRefreshing := False\<rparr>)"

text \<open>
  What can happen to a mounted hook: the component renders again, the UI invokes the
  \<^verbatim>\<open>refreshScore\<close> of the latest render or \<^verbatim>\<open>clearError\<close>, or a pending
  \<^verbatim>\<open>triggerScoreCalculation\<close> call settles (only a call that is pending can).
\<close>

datatype event =
    Render
  | Refresh string "AnalyticsData option"
  | Settled bool "thrown + trigger_result"
  | ClearError

fun step :: "controller \<Rightarrow> event \<Rightarrow> controller" where
  "step c Render = c\<lparr>renderedIsRefreshing := isRefreshing c\<rparr>"
| "step c (Refresh talentUUID analyticsData) =
     refreshScore talentUUID analyticsData (renderedIsRefreshing c) c"
| "step c (Settled onSuccess outcome) =
     (if inFlight c = 0 then c else refreshSettled onSuccess outcome c)"
| "step c ClearError = clearError c"

definition run :: "event list \<Rightarrow> controller" where
  "run events = foldl step initialController events"

text \<open>A refresh whose request is rejected.\<close>

definition failedRefresh :: "event list" where
  "failedRefresh = [Refresh ''talent-1'' None, Settled True (Inl (ErrorObject ''network down''))]"

text \<open>
  At most one call is pending, and while one is pending the cell says the hook is
  refreshing.
\<close>

definition onePending :: "controller \<Rightarrow> bool" where
  "onePending c = (inFlight c = 0 \<or> (inFlight c = 1 \<and> isRefreshing c))"

text \<open>An invocation that passes the guard of \<^verbatim>\<open>refreshScore\<close>.\<close>

fun accepted :: "controller \<Rightarrow> event \<Rightarrow> bool" where
  "accepted c (Refresh talentUUID analyticsData) = (talentUUID \<noteq> [] \<and> \<not> renderedIsRefreshing c)"
| "accepted c _ = False"

text \<open>
  Every invocation of \<^verbatim>\<open>refreshScore\<close> comes directly after a render: the function that
  is invoked has seen the cells as they are.
\<close>

fun renderedBeforeRefresh :: "event list \<Rightarrow> bool" where
  "renderedBeforeRefresh [] = True"
| "renderedBeforeRefresh (Render # Refresh talentUUID analyticsData # events) =
     renderedBeforeRefresh events"
| "renderedBeforeRefresh (Refresh talentUUID analyticsData # events) = False"
| "renderedBeforeRefresh (e # events) = renderedBeforeRefresh events"

section \<open>Score client: level derivation\<close>

lemma indexOf_first:
  "i < length xs \<Longrightarrow> \<forall>j<i. xs ! j \<noteq> xs ! i \<Longrightarrow> indexOf xs (xs ! i) = int i"
proof (induction xs arbitrary: i)
  case Nil
  then show ?case by simp
next
  case (Cons y ys)
  show ?case
  proof (cases i)
    case 0
    then show ?thesis by simp
  next
    case (Suc k)
    from Cons.prems Suc have k: "k < length ys" by simp
    from Cons.prems(2) Suc have ne: "y \<noteq> ys ! k"
      by (metis nth_Cons_0 nth_Cons_Suc zero_less_Suc)
    have "\<forall>j<k. ys ! j \<noteq> ys ! k"
    proof (intro allI impI)
      fix j assume "j < k"
      then have "Suc j < i" using Suc by simp
      with Cons.prems(2) have "(y # ys) ! Suc j \<noteq> (y # ys) ! i" by blast
      then show "ys ! j \<noteq> ys ! k" using Suc by simp
    qed
    with Cons.IH k have "indexOf ys (ys ! k) = int k" by blast
    with ne Suc show ?thesis by (simp add: Let_def)
  qed
qed

lemma levelInfoFor_position:
  assumes "tbl \<noteq> []"
  shows "\<exists>i<length tbl. levelInfoFor tbl p = Some (tbl ! i) \<and> indexOf tbl (tbl ! i) = int i
           \<and> (if \<exists>r\<in>set tbl. in_range p r
               then in_range p (tbl ! i) \<and> (\<forall>j<i. \<not> in_range p (tbl ! j))
               else i = 0)"
proof (cases "find (in_range p) tbl")
  case None
  then have no: "\<not> (\<exists>r\<in>set tbl. in_range p r)" by (simp add: find_None_iff)
  from assms obtain a rest where t: "tbl = a # rest" by (cases tbl) auto
  have "levelInfoFor tbl p = Some (tbl ! 0)" using None t by (simp add: levelInfoFor_def)
  moreover have "indexOf tbl (tbl ! 0) = int 0" using t by simp
  ultimately show ?thesis using no t by auto
next
  case (Some r)
  then obtain i where i: "i < length tbl" "in_range p (tbl ! i)" "r = tbl ! i"
    "\<forall>j<i. \<not> in_range p (tbl ! j)" by (auto simp: find_Some_iff)
  have "\<forall>j<i. tbl ! j \<noteq> tbl ! i" using i by metis
  then have "indexOf tbl (tbl ! i) = int i" using i(1) by (rule indexOf_first[rotated])
  moreover have "levelInfoFor tbl p = Some (tbl ! i)" using Some i by (simp add: levelInfoFor_def)
  moreover have "\<exists>r\<in>set tbl. in_range p r" using i by auto
  ultimately show ?thesis using i by auto
qed

lemma getScoreForAddress_success:
  assumes "api (scoreQuery address scorerSlug) = Inr (JsonObject data)"
    and "\<not> truthy (data_error data)"
    and "levelInfoFor tbl (pointsOf data) = Some levelInfo"
  shows "getScoreForAddress tbl api address scorerSlug =
     \<lparr>score = pointsOf data, level = indexOf tbl levelInfo + 1,
      levelName = range_name levelInfo,
      lastCalculatedAt = (case data_score data of None \<Rightarrow> None
                          | Some s \<Rightarrow> last_calculated_at s),
      walletAddress = Some address,
      calculating = Some (case data_score data of None \<Rightarrow> False
                          | Some s \<Rightarrow> (case calculating_score s of None \<Rightarrow> False | Some b \<Rightarrow> b)),
      calculatingEnqueuedAt = (case data_score data of None \<Rightarrow> None
                               | Some s \<Rightarrow> calculating_score_enqueued_at s),
      error = None\<rparr>"
  using assms by (simp add: getScoreForAddress_def Let_def)

text \<open>
  Claim C6. For an answer of the score endpoint with no error and \<open>p\<close> points (0 when the
  score object or its points are missing), and a table with at least one range, the
  level info of \<^verbatim>\<open>getScoreForAddress\<close> is the range at a position \<open>i\<close> of the table such
  that: if some range has \<open>min \<le> p \<le> max\<close>, range \<open>i\<close> has and no range before it has; if
  no range has, \<open>i\<close> is the first position. The record has the name of that range, \<open>p\<close>
  as its score, and the level \<open>i + 1\<close>.
\<close>

theorem level_first_matching_range:
  assumes "tbl \<noteq> []"
    and "api (scoreQuery address scorerSlug) = Inr (JsonObject data)"
    and "data_error data = None \<or> data_error data = Some []"
    and "p = (case data_score data of None \<Rightarrow> 0
              | Some s \<Rightarrow> (case points s of None \<Rightarrow> 0 | Some q \<Rightarrow> q))"
  shows "\<exists>i<length tbl.
           levelInfoFor tbl p = Some (tbl ! i)
         \<and> levelName (getScoreForAddress tbl api address scorerSlug) = range_name (tbl ! i)
         \<and> level (getScoreForAddress tbl api address scorerSlug) = int i + 1
         \<and> score (getScoreForAddress tbl api address scorerSlug) = p
         \<and> (if \<exists>r\<in>set tbl. range_min r \<le> p \<and> p \<le> range_max r
             then range_min (tbl ! i) \<le> p \<and> p \<le> range_max (tbl ! i)
                  \<and> (\<forall>j<i. \<not> (range_min (tbl ! j) \<le> p \<and> p \<le> range_max (tbl ! j)))
             else i = 0)"
proof -
  have p: "p = pointsOf data" using assms(4) by (simp add: pointsOf_def)
  have ne: "\<not> truthy (data_error data)" using assms(3) by (auto simp: truthy_def)
  from levelInfoFor_position[OF assms(1), of "pointsOf data"]
  obtain i where i: "i < length tbl" "levelInfoFor tbl (pointsOf data) = Some (tbl ! i)"
     "indexOf tbl (tbl ! i) = int i"
     "(if \<exists>r\<in>set tbl. in_range (pointsOf data) r
       then in_range (pointsOf data) (tbl ! i)
            \<and> (\<forall>j<i. \<not> in_range (pointsOf data) (tbl ! j))
       else i = 0)" by blast
  from getScoreForAddress_success[where api = api and address = address
      and scorerSlug = scorerSlug, OF assms(2) ne i(2)] i(3)
  have "levelName (getScoreForAddress tbl api address scorerSlug) = range_name (tbl ! i)"
    and "level (getScoreForAddress tbl api address scorerSlug) = int i + 1"
    and "score (getScoreForAddress tbl api address scorerSlug) = pointsOf data"
    by simp_all
  moreover have "(if \<exists>r\<in>set tbl. range_min r \<le> p \<and> p \<le> range_max r
             then range_min (tbl ! i) \<le> p \<and> p \<le> range_max (tbl ! i)
                  \<and> (\<forall>j<i. \<not> (range_min (tbl ! j) \<le> p \<and> p \<le> range_max (tbl ! j)))
             else i = 0)"
  proof -
    have c: "(\<exists>r\<in>set tbl. range_min r \<le> p \<and> p \<le> range_max r)
               = (\<exists>r\<in>set tbl. in_range (pointsOf data) r)"
      by (simp add: in_range_def p)
    show ?thesis
    proof (cases "\<exists>r\<in>set tbl. in_range (pointsOf data) r")
      case True
      with i(4) have "in_range (pointsOf data) (tbl ! i)"
        "\<forall>j<i. \<not> in_range (pointsOf data) (tbl ! j)" by simp_all
      then have "range_min (tbl ! i) \<le> p \<and> p \<le> range_max (tbl ! i)"
        "\<forall>j<i. \<not> (range_min (tbl ! j) \<le> p \<and> p \<le> range_max (tbl ! j))"
        by (simp_all add: in_range_def p)
      moreover from True c have "\<exists>r\<in>set tbl. range_min r \<le> p \<and> p \<le> range_max r"
        by blast
      ultimately show ?thesis by (simp only: if_True simp_thms)
    next
      case False
      with i(4) have "i = 0" by simp
      moreover from False c have "\<not> (\<exists>r\<in>set tbl. range_min r \<le> p \<and> p \<le> range_max r)"
        by blast
      ultimately show ?thesis by (simp only: if_False)
    qed
  qed
  ultimately show ?thesis using i(1,2) p by blast
qed

theorem level_first_matching_range_witness:
  "sampleRanges \<noteq> []
   \<and> sampleApi (scoreQuery ''0xb'' ''creator_score'') = Inr (JsonObject (samplePoints 25))
   \<and> data_error (samplePoints 25) = None
   \<and> data_score (samplePoints 25)
       = Some \<lparr>points = Some 25, last_calculated_at = None, calculating_score = None,
               calculating_score_enqueued_at = None\<rparr>
   \<and> (\<exists>i<length sampleRanges.
           levelName (getScoreForAddress sampleRanges sampleApi ''0xb'' ''creator_score'')
             = range_name (sampleRanges ! i)
         \<and> level (getScoreForAddress sampleRanges sampleApi ''0xb'' ''creator_score'') = int i + 1
         \<and> score (getScoreForAddress sampleRanges sampleApi ''0xb'' ''creator_score'') = 25
         \<and> (if \<exists>r\<in>set sampleRanges. range_min r \<le> 25 \<and> 25 \<le> range_max r
             then range_min (sampleRanges ! i) \<le> 25 \<and> 25 \<le> range_max (sampleRanges ! i)
                  \<and> (\<forall>j<i. \<not> (range_min (sampleRanges ! j) \<le> 25
                               \<and> 25 \<le> range_max (sampleRanges ! j)))
             else i = 0))
   \<and> level (getScoreForAddress sampleRanges sampleApi ''0xb'' ''creator_score'') = 2
   \<and> levelName (getScoreForAddress sampleRanges sampleApi ''0xb'' ''creator_score'') = ''Level 2''
   \<and> score (getScoreForAddress sampleRanges sampleApi ''0xb'' ''creator_score'') = 25
   \<and> level (getScoreForAddress sampleRanges sampleApi ''0x19'' ''creator_score'') = 1
   \<and> levelName (getScoreForAddress sampleRanges sampleApi ''0x19'' ''creator_score'') = ''Level 1''
   \<and> level (getScoreForAddress sampleRanges sampleApi ''0x20'' ''creator_score'') = 2
   \<and> levelName (getScoreForAddress sampleRanges sampleApi ''0x20'' ''creator_score'') = ''Level 2''
   \<and> score (getScoreForAddress sampleRanges sampleApi ''0xf'' ''creator_score'') = 5000
   \<and> level (getScoreForAddress sampleRanges sampleApi ''0xf'' ''creator_score'') = 1
   \<and> levelName (getScoreForAddress sampleRanges sampleApi ''0xf'' ''creator_score'') = ''Level 1''"
proof -
  have h1: "sampleRanges \<noteq> []" by (simp add: sampleRanges_def)
  have h2: "sampleApi (scoreQuery ''0xb'' ''creator_score'') = Inr (JsonObject (samplePoints 25))"
    by (simp add: sampleApi_def scoreQuery_def)
  have h3: "data_error (samplePoints 25) = None \<or> data_error (samplePoints 25) = Some []"
    by (simp add: samplePoints_def)
  have h4: "(25 :: number) = (case data_score (samplePoints 25) of None \<Rightarrow> 0
              | Some s \<Rightarrow> (case points s of None \<Rightarrow> 0 | Some q \<Rightarrow> q))"
    by (simp add: samplePoints_def)
  have d: "data_error (samplePoints 25) = None"
    "data_score (samplePoints 25)
       = Some \<lparr>points = Some 25, last_calculated_at = None, calculating_score = None,
               calculating_score_enqueued_at = None\<rparr>"
    by (simp_all add: samplePoints_def)
  have b: "level (getScoreForAddress sampleRanges sampleApi ''0xb'' ''creator_score'') = 2"
    "levelName (getScoreForAddress sampleRanges sampleApi ''0xb'' ''creator_score'') = ''Level 2''"
    "score (getScoreForAddress sampleRanges sampleApi ''0xb'' ''creator_score'') = 25"
    by code_simp+
  have lo: "level (getScoreForAddress sampleRanges sampleApi ''0x19'' ''creator_score'') = 1"
    "levelName (getScoreForAddress sampleRanges sampleApi ''0x19'' ''creator_score'') = ''Level 1''"
    by code_simp+
  have hi: "level (getScoreForAddress sampleRanges sampleApi ''0x20'' ''creator_score'') = 2"
    "levelName (getScoreForAddress sampleRanges sampleApi ''0x20'' ''creator_score'') = ''Level 2''"
    by code_simp+
  have out: "score (getScoreForAddress sampleRanges sampleApi ''0xf'' ''creator_score'') = 5000"
    "level (getScoreForAddress sampleRanges sampleApi ''0xf'' ''creator_score'') = 1"
    "levelName (getScoreForAddress sampleRanges sampleApi ''0xf'' ''creator_score'') = ''Level 1''"
    by code_simp+
  note t = level_first_matching_range[where api = sampleApi and address = "''0xb''"
      and scorerSlug = "''creator_score''" and p = 25, OF h1 h2 h3 h4]
  from t have ex: "\<exists>i<length sampleRanges.
           levelName (getScoreForAddress sampleRanges sampleApi ''0xb'' ''creator_score'')
             = range_name (sampleRanges ! i)
         \<and> level (getScoreForAddress sampleRanges sampleApi ''0xb'' ''creator_score'') = int i + 1
         \<and> score (getScoreForAddress sampleRanges sampleApi ''0xb'' ''creator_score'') = 25
         \<and> (if \<exists>r\<in>set sampleRanges. range_min r \<le> 25 \<and> 25 \<le> range_max r
             then range_min (sampleRanges ! i) \<le> 25 \<and> 25 \<le> range_max (sampleRanges ! i)
                  \<and> (\<forall>j<i. \<not> (range_min (sampleRanges ! j) \<le> 25
                               \<and> 25 \<le> range_max (sampleRanges ! j)))
             else i = 0)"
    by blast
  from ex h1 h2 d b lo hi out show ?thesis by (intro conjI)
qed

section \<open>Score client: best of several addresses, soft failure\<close>

lemma pickHigher_fold:
  "\<exists>i<length (a # xs). foldl pickHigher a xs = (a # xs) ! i
      \<and> (\<forall>s\<in>set (a # xs). score s \<le> score ((a # xs) ! i))
      \<and> (\<forall>j<i. score ((a # xs) ! j) < score ((a # xs) ! i))"
proof (induction xs rule: rev_induct)
  case Nil
  then show ?case by simp
next
  case (snoc x xs)
  then obtain i where i: "i < length (a # xs)" "foldl pickHigher a xs = (a # xs) ! i"
     "\<forall>s\<in>set (a # xs). score s \<le> score ((a # xs) ! i)"
     "\<forall>j<i. score ((a # xs) ! j) < score ((a # xs) ! i)" by blast
  let ?ys = "a # xs @ [x]"
  have app: "?ys = (a # xs) @ [x]" by simp
  have pre: "\<And>j. j < length (a # xs) \<Longrightarrow> ?ys ! j = (a # xs) ! j"
    unfolding app by (simp only: nth_append if_True)
  have lst: "?ys ! length (a # xs) = x" unfolding app by (simp only: nth_append_length)
  show ?case
  proof (cases "score x > score ((a # xs) ! i)")
    case True
    have r: "foldl pickHigher a (xs @ [x]) = ?ys ! length (a # xs)"
      using True i(2) lst by (simp add: pickHigher_def)
    have m: "\<forall>s\<in>set ?ys. score s \<le> score x" using True i(3) by auto
    have f: "\<forall>j<length (a # xs). score (?ys ! j) < score x"
    proof (intro allI impI)
      fix j assume j: "j < length (a # xs)"
      then have "(a # xs) ! j \<in> set (a # xs)" by (rule nth_mem)
      with i(3) have "score ((a # xs) ! j) \<le> score ((a # xs) ! i)" by blast
      with True pre[OF j] show "score (?ys ! j) < score x" by simp
    qed
    show ?thesis
      apply (rule exI[of _ "length (a # xs)"])
      using r m f lst by simp
  next
    case False
    have r: "foldl pickHigher a (xs @ [x]) = ?ys ! i"
      using False i(1,2) pre[OF i(1)] by (simp add: pickHigher_def)
    have m: "\<forall>s\<in>set ?ys. score s \<le> score (?ys ! i)"
      using False i(3) pre[OF i(1)] by auto
    have f: "\<forall>j<i. score (?ys ! j) < score (?ys ! i)"
    proof (intro allI impI)
      fix j assume j: "j < i"
      then have "j < length (a # xs)" using i(1) by simp
      from pre[OF this] pre[OF i(1)] i(4) j show "score (?ys ! j) < score (?ys ! i)" by simp
    qed
    show ?thesis
      apply (rule exI[of _ i])
      using r m f i(1) by simp
  qed
qed

lemma errorScore_fields:
  "error (errorScore m) = m" "score (errorScore m) = 0" "level (errorScore m) = 1"
  "walletAddress (errorScore m) = None"
  by (simp_all add: errorScore_def)

lemma validScoresOf_no_addresses: "validScoresOf tbl api [] scorerSlug = []"
  by (simp add: validScoresOf_def scoresOf_def)

text \<open>
  Claim C5, as amended. \<^verbatim>\<open>getHighestScore\<close> fetches every address (lowercased), in input
  order, and discards the records whose error is a non-empty string: it keeps the
  records with no error field or with the empty string as error. If none is kept, which
  is so for the empty list, the result is a record with a non-empty error and score 0.
  Otherwise the result is the kept record at a position \<open>i\<close> whose score is the greatest
  of the kept records and strictly greater than the score of every kept record before
  position \<open>i\<close>: on a tie the first one wins.
\<close>

theorem getHighestScore_best:
  "(validScoresOf tbl api addresses scorerSlug = [] \<longrightarrow>
        error (getHighestScore tbl api addresses scorerSlug) \<noteq> None
      \<and> error (getHighestScore tbl api addresses scorerSlug) \<noteq> Some []
      \<and> score (getHighestScore tbl api addresses scorerSlug) = 0)
   \<and> (validScoresOf tbl api addresses scorerSlug \<noteq> [] \<longrightarrow>
        (\<exists>i<length (validScoresOf tbl api addresses scorerSlug).
            getHighestScore tbl api addresses scorerSlug
              = validScoresOf tbl api addresses scorerSlug ! i
          \<and> (\<forall>s\<in>set (validScoresOf tbl api addresses scorerSlug).
                score s \<le> score (validScoresOf tbl api addresses scorerSlug ! i))
          \<and> (\<forall>j<i. score (validScoresOf tbl api addresses scorerSlug ! j)
                     < score (validScoresOf tbl api addresses scorerSlug ! i))))
   \<and> (addresses = [] \<longrightarrow> validScoresOf tbl api addresses scorerSlug = [])
   \<and> validScoresOf tbl api addresses scorerSlug
       = filter (\<lambda>s. error s = None \<or> error s = Some [])
           (map (\<lambda>addr. getScoreForAddress tbl api (toLowerCase addr) scorerSlug) addresses)"
proof -
  have kept: "(\<lambda>s. \<not> truthy (error s)) = (\<lambda>s :: BuilderScore. error s = None \<or> error s = Some [])"
  proof (rule ext)
    fix s :: BuilderScore
    show "(\<not> truthy (error s)) = (error s = None \<or> error s = Some [])"
      by (cases "error s") (simp_all add: truthy_def)
  qed
  show ?thesis
  proof (cases "validScoresOf tbl api addresses scorerSlug")
    case Nil
    then show ?thesis
      by (simp add: getHighestScore_def errorScore_fields validScoresOf_def scoresOf_def kept)
  next
    case (Cons first rest)
    then have ne: "addresses \<noteq> []" using validScoresOf_no_addresses by fastforce
    have "getHighestScore tbl api addresses scorerSlug = foldl pickHigher first rest"
      using ne Cons by (simp add: getHighestScore_def)
    with pickHigher_fold[of first rest] Cons ne show ?thesis
      by (simp add: validScoresOf_def scoresOf_def kept)
  qed
qed

theorem getHighestScore_best_witness:
  "validScoresOf sampleRanges sampleApi [''0xA'', ''0xB'', ''0xC''] ''creator_score'' \<noteq> []
   \<and> score (getHighestScore sampleRanges sampleApi [''0xA'', ''0xB'', ''0xC''] ''creator_score'') = 25
   \<and> walletAddress (getHighestScore sampleRanges sampleApi [''0xA'', ''0xB'', ''0xC''] ''creator_score'')
       = Some ''0xb''
   \<and> error (getHighestScore sampleRanges sampleApi [''0xA'', ''0xB'', ''0xC''] ''creator_score'') = None
   \<and> walletAddress (getHighestScore sampleRanges sampleApi [''0xB'', ''0xA'', ''0xb''] ''creator_score'')
       = Some ''0xb''
   \<and> (\<exists>i<length (validScoresOf sampleRanges sampleApi [''0xA'', ''0xB'', ''0xC''] ''creator_score'').
          getHighestScore sampleRanges sampleApi [''0xA'', ''0xB'', ''0xC''] ''creator_score''
            = validScoresOf sampleRanges sampleApi [''0xA'', ''0xB'', ''0xC''] ''creator_score'' ! i
        \<and> (\<forall>s\<in>set (validScoresOf sampleRanges sampleApi [''0xA'', ''0xB'', ''0xC''] ''creator_score'').
              score s \<le> score (validScoresOf sampleRanges sampleApi [''0xA'', ''0xB'', ''0xC''] ''creator_score'' ! i)))
   \<and> error (getHighestScore sampleRanges sampleApi [''0xC'', ''0xD''] ''creator_score'')
       = Some ''No valid scores found''
   \<and> error (getHighestScore sampleRanges sampleApi [] ''creator_score'')
       = Some ''No wallet addresses provided''
   \<and> score (getHighestScore sampleRanges sampleApi [''0xC'', ''0xD''] ''creator_score'') = 0"
proof -
  have h: "validScoresOf sampleRanges sampleApi [''0xA'', ''0xB'', ''0xC''] ''creator_score'' \<noteq> []"
    by code_simp
  have s: "score (getHighestScore sampleRanges sampleApi [''0xA'', ''0xB'', ''0xC''] ''creator_score'') = 25"
    "walletAddress (getHighestScore sampleRanges sampleApi [''0xA'', ''0xB'', ''0xC''] ''creator_score'')
       = Some ''0xb''"
    "error (getHighestScore sampleRanges sampleApi [''0xA'', ''0xB'', ''0xC''] ''creator_score'') = None"
    "walletAddress (getHighestScore sampleRanges sampleApi [''0xB'', ''0xA'', ''0xb''] ''creator_score'')
       = Some ''0xb''"
    by code_simp+
  have e: "validScoresOf sampleRanges sampleApi [''0xC'', ''0xD''] ''creator_score'' = []"
    "error (getHighestScore sampleRanges sampleApi [''0xC'', ''0xD''] ''creator_score'')
       = Some ''No valid scores found''"
    "error (getHighestScore sampleRanges sampleApi [] ''creator_score'')
       = Some ''No wallet addresses provided''"
    by code_simp+
  from getHighestScore_best[of sampleRanges sampleApi "[''0xA'', ''0xB'', ''0xC'']" "''creator_score''"]
       getHighestScore_best[of sampleRanges sampleApi "[''0xC'', ''0xD'']" "''creator_score''"]
       h s e
  show ?thesis by blast
qed

text \<open>
  Claim C5 as it is stated fails on a fetch that is rejected with an empty message: the
  record of \<open>0xe\<close> has its error field set, to the empty string, the test \<^verbatim>\<open>!s.error\<close>
  keeps it, and on the tie at score 0 it is returned, although the record of \<open>0xb\<close> has
  no error.
\<close>

theorem empty_error_record_is_kept:
  "error (getScoreForAddress sampleRanges emptyMessageApi ''0xe'' ''creator_score'') = Some []
   \<and> error (getScoreForAddress sampleRanges emptyMessageApi ''0xb'' ''creator_score'') = None
   \<and> score (getScoreForAddress sampleRanges emptyMessageApi ''0xb'' ''creator_score'') = 0
   \<and> getHighestScore sampleRanges emptyMessageApi [''0xE'', ''0xB''] ''creator_score''
       = getScoreForAddress sampleRanges emptyMessageApi ''0xe'' ''creator_score''
   \<and> error (getHighestScore sampleRanges emptyMessageApi [''0xE'', ''0xB''] ''creator_score'')
       = Some []
   \<and> walletAddress (getHighestScore sampleRanges emptyMessageApi [''0xE'', ''0xB''] ''creator_score'')
       = None"
  by code_simp

text \<open>
  Claim C7. \<^verbatim>\<open>getScoreForAddress\<close> always yields a record (the function is total: every
  throw of its body ends in its \<^verbatim>\<open>catch\<close> clause). When the request or the parsing of the
  answer throws, the record carries the thrown error's message (or the fallback text) in
  its error field, a truthy value unless the thrown error has the empty message, and it
  carries an error too when the answer is \<^verbatim>\<open>null\<close>. In every record the function yields,
  an error field that is present comes with score 0 and level 1.
\<close>

theorem getScoreForAddress_fails_soft:
  "(\<forall>t. api (scoreQuery address scorerSlug) = Inl t \<longrightarrow>
        error (getScoreForAddress tbl api address scorerSlug)
          = Some (case t of ErrorObject message \<Rightarrow> message
                  | OtherThrown \<Rightarrow> ''Failed to fetch score''))
   \<and> (api (scoreQuery address scorerSlug) = Inl t \<and> t \<noteq> ErrorObject [] \<longrightarrow>
        truthy (error (getScoreForAddress tbl api address scorerSlug)))
   \<and> (api (scoreQuery address scorerSlug) = Inr JsonNull \<longrightarrow>
        truthy (error (getScoreForAddress tbl api address scorerSlug)))
   \<and> (error (getScoreForAddress tbl api address scorerSlug) \<noteq> None \<longrightarrow>
        score (getScoreForAddress tbl api address scorerSlug) = 0
      \<and> level (getScoreForAddress tbl api address scorerSlug) = 1)"
  by (auto simp: getScoreForAddress_def catchScore_def errorScore_def Let_def truthy_def
                nullReadMessage_def
           split: sum.splits json_data.splits option.splits thrown.splits)

theorem getScoreForAddress_fails_soft_witness:
  "sampleApi (scoreQuery ''0xc'' ''creator_score'') = Inl (ErrorObject ''fetch failed'')
   \<and> error (getScoreForAddress sampleRanges sampleApi ''0xc'' ''creator_score'')
       = Some ''fetch failed''
   \<and> score (getScoreForAddress sampleRanges sampleApi ''0xc'' ''creator_score'') = 0
   \<and> level (getScoreForAddress sampleRanges sampleApi ''0xc'' ''creator_score'') = 1"
proof -
  have h: "sampleApi (scoreQuery ''0xc'' ''creator_score'') = Inl (ErrorObject ''fetch failed'')"
    by (simp add: sampleApi_def scoreQuery_def)
  from getScoreForAddress_fails_soft[where api = sampleApi and address = "''0xc''"
      and scorerSlug = "''creator_score''" and tbl = sampleRanges] h
  show ?thesis by auto
qed

lemma getScoreForAddress_wallet:
  "error (getScoreForAddress tbl api address scorerSlug) = None \<Longrightarrow>
   walletAddress (getScoreForAddress tbl api address scorerSlug) = Some address"
  by (auto simp: getScoreForAddress_def catchScore_def errorScore_def Let_def truthy_def
           split: sum.splits json_data.splits option.splits thrown.splits if_splits)

lemma toLowerChar_not_upper: "\<not> isUpper (toLowerChar c)"
  by (auto simp: toLowerChar_def isUpper_def)

lemma pickHigher_fold_mem: "foldl pickHigher a xs \<in> set (a # xs)"
  using pickHigher_fold[of a xs] by (metis nth_mem)

lemma getHighestScore_cases:
  "getHighestScore tbl api addresses scorerSlug \<in> set (validScoresOf tbl api addresses scorerSlug)
   \<or> error (getHighestScore tbl api addresses scorerSlug) \<noteq> None"
proof (cases "validScoresOf tbl api addresses scorerSlug")
  case Nil
  then show ?thesis by (simp add: getHighestScore_def errorScore_fields)
next
  case (Cons first rest)
  then have ne: "addresses \<noteq> []" using validScoresOf_no_addresses by fastforce
  have "getHighestScore tbl api addresses scorerSlug = foldl pickHigher first rest"
    using ne Cons by (simp add: getHighestScore_def)
  with pickHigher_fold_mem[of first rest] Cons show ?thesis by simp
qed

lemma getHighestScore_api_cong:
  assumes "\<forall>a\<in>set addresses. api1 (scoreQuery (toLowerCase a) scorerSlug)
                              = api2 (scoreQuery (toLowerCase a) scorerSlug)"
  shows "getHighestScore tbl api1 addresses scorerSlug = getHighestScore tbl api2 addresses scorerSlug"
proof -
  have "scoresOf tbl api1 addresses scorerSlug = scoresOf tbl api2 addresses scorerSlug"
    using assms by (simp add: scoresOf_def getScoreForAddress_def)
  then show ?thesis by (simp add: getHighestScore_def validScoresOf_def)
qed

lemma toLowerChar_code:
  "(of_char (toLowerChar c) :: nat)
     = (if 65 \<le> (of_char c :: nat) \<and> (of_char c :: nat) \<le> 90 then of_char c + 32 else of_char c)"
  by (simp add: toLowerChar_def isUpper_def)

lemma toLowerCase_nth:
  "i < length a \<Longrightarrow>
   (of_char (toLowerCase a ! i) :: nat)
     = (if 65 \<le> (of_char (a ! i) :: nat) \<and> (of_char (a ! i) :: nat) \<le> 90
        then of_char (a ! i) + 32 else of_char (a ! i))"
  by (simp add: toLowerCase_def toLowerChar_code)

text \<open>
  Claim C10. For a non-empty address list, a result of \<^verbatim>\<open>getHighestScore\<close> without an error
  field has as its \<open>walletAddress\<close> the lowercased form of one of the input addresses: a
  string of the same length as that address in which every ASCII capital (codes 65 to
  90) is replaced by its small letter (the code plus 32) and every other character is
  the address's own, so it has no ASCII capital. The endpoint is asked about lowercased
  addresses only: two endpoints that agree on the queries of the lowercased addresses
  give the same result.
\<close>

theorem highest_score_wallet_lowercased:
  "(addresses \<noteq> [] \<and> error (getHighestScore tbl api addresses scorerSlug) = None \<longrightarrow>
      (\<exists>a\<in>set addresses. \<exists>w.
          walletAddress (getHighestScore tbl api addresses scorerSlug) = Some w
        \<and> w = toLowerCase a
        \<and> length w = length a
        \<and> (\<forall>i<length a.
              (of_char (w ! i) :: nat)
                = (if 65 \<le> (of_char (a ! i) :: nat) \<and> (of_char (a ! i) :: nat) \<le> 90
                   then of_char (a ! i) + 32 else of_char (a ! i)))
        \<and> (\<forall>c\<in>set w. \<not> (65 \<le> (of_char c :: nat) \<and> (of_char c :: nat) \<le> 90))))
   \<and> ((\<forall>a\<in>set addresses. api (scoreQuery (toLowerCase a) scorerSlug)
                            = api' (scoreQuery (toLowerCase a) scorerSlug)) \<longrightarrow>
      getHighestScore tbl api addresses scorerSlug = getHighestScore tbl api' addresses scorerSlug)"
proof (intro conjI impI)
  assume a: "addresses \<noteq> [] \<and> error (getHighestScore tbl api addresses scorerSlug) = None"
  with getHighestScore_cases[of tbl api addresses scorerSlug]
  have "getHighestScore tbl api addresses scorerSlug \<in> set (scoresOf tbl api addresses scorerSlug)"
    by (auto simp: validScoresOf_def)
  then obtain x where x: "x \<in> set addresses"
     "getHighestScore tbl api addresses scorerSlug = getScoreForAddress tbl api (toLowerCase x) scorerSlug"
    by (auto simp: scoresOf_def)
  from a x(2) have w: "walletAddress (getHighestScore tbl api addresses scorerSlug) = Some (toLowerCase x)"
    using getScoreForAddress_wallet[of tbl api "toLowerCase x" scorerSlug] by simp
  have l: "length (toLowerCase x) = length x" by (simp add: toLowerCase_def)
  have n: "\<forall>i<length x.
              (of_char (toLowerCase x ! i) :: nat)
                = (if 65 \<le> (of_char (x ! i) :: nat) \<and> (of_char (x ! i) :: nat) \<le> 90
                   then of_char (x ! i) + 32 else of_char (x ! i))"
    using toLowerCase_nth[of _ x] by blast
  have u: "\<forall>c\<in>set (toLowerCase x). \<not> (65 \<le> (of_char c :: nat) \<and> (of_char c :: nat) \<le> 90)"
    using toLowerChar_not_upper by (auto simp: toLowerCase_def isUpper_def)
  from w l n u x(1) show "\<exists>a\<in>set addresses. \<exists>w.
          walletAddress (getHighestScore tbl api addresses scorerSlug) = Some w
        \<and> w = toLowerCase a
        \<and> length w = length a
        \<and> (\<forall>i<length a.
              (of_char (w ! i) :: nat)
                = (if 65 \<le> (of_char (a ! i) :: nat) \<and> (of_char (a ! i) :: nat) \<le> 90
                   then of_char (a ! i) + 32 else of_char (a ! i)))
        \<and> (\<forall>c\<in>set w. \<not> (65 \<le> (of_char c :: nat) \<and> (of_char c :: nat) \<le> 90))"
    by blast
next
  assume "\<forall>a\<in>set addresses. api (scoreQuery (toLowerCase a) scorerSlug)
                            = api' (scoreQuery (toLowerCase a) scorerSlug)"
  then show "getHighestScore tbl api addresses scorerSlug = getHighestScore tbl api' addresses scorerSlug"
    by (rule getHighestScore_api_cong)
qed

theorem highest_score_wallet_lowercased_witness:
  "[''0xA'', ''0xB''] \<noteq> []
   \<and> error (getHighestScore sampleRanges sampleApi [''0xA'', ''0xB''] ''creator_score'') = None
   \<and> (\<exists>a\<in>set [''0xA'', ''0xB'']. \<exists>w.
          walletAddress (getHighestScore sampleRanges sampleApi [''0xA'', ''0xB''] ''creator_score'')
            = Some w
        \<and> length w = length a
        \<and> (\<forall>i<length a.
              (of_char (w ! i) :: nat)
                = (if 65 \<le> (of_char (a ! i) :: nat) \<and> (of_char (a ! i) :: nat) \<le> 90
                   then of_char (a ! i) + 32 else of_char (a ! i))))
   \<and> walletAddress (getHighestScore sampleRanges sampleApi [''0xA'', ''0xB''] ''creator_score'')
       = Some ''0xb''
   \<and> walletAddress (getHighestScore sampleRanges sampleApi [''0XA''] ''creator_score'')
       = Some ''0xa''
   \<and> toLowerCase ''0xAbC9'' = ''0xabc9''"
proof -
  have h: "error (getHighestScore sampleRanges sampleApi [''0xA'', ''0xB''] ''creator_score'') = None"
    by code_simp
  have n: "[''0xA'', ''0xB''] \<noteq> []" by simp
  have c: "walletAddress (getHighestScore sampleRanges sampleApi [''0xA'', ''0xB''] ''creator_score'')
       = Some ''0xb''"
    "walletAddress (getHighestScore sampleRanges sampleApi [''0XA''] ''creator_score'')
       = Some ''0xa''"
    "toLowerCase ''0xAbC9'' = ''0xabc9''"
    by code_simp+
  note t = highest_score_wallet_lowercased[where addresses = "[''0xA'', ''0xB'']"
      and tbl = sampleRanges and api = sampleApi and scorerSlug = "''creator_score''"]
  from t h n have "\<exists>a\<in>set [''0xA'', ''0xB'']. \<exists>w.
          walletAddress (getHighestScore sampleRanges sampleApi [''0xA'', ''0xB''] ''creator_score'')
            = Some w
        \<and> length w = length a
        \<and> (\<forall>i<length a.
              (of_char (w ! i) :: nat)
                = (if 65 \<le> (of_char (a ! i) :: nat) \<and> (of_char (a ! i) :: nat) \<le> 90
                   then of_char (a ! i) + 32 else of_char (a ! i)))"
    by blast
  with h n c show ?thesis by (intro conjI)
qed

section \<open>Credential aggregator: parsing and summation\<close>

lemma isDigit_iff: "isDigit c \<longleftrightarrow> c \<in> set ''0123456789''"
proof
  assume "isDigit c"
  then have "(of_char c :: nat) \<in> {48, 49, 50, 51, 52, 53, 54, 55, 56, 57}"
    unfolding isDigit_def by (simp only: insert_iff empty_iff) arith
  then have "char_of (of_char c :: nat) \<in> char_of ` {48::nat, 49, 50, 51, 52, 53, 54, 55, 56, 57}"
    by (rule imageI)
  then have "c \<in> char_of ` {48::nat, 49, 50, 51, 52, 53, 54, 55, 56, 57}" by simp
  also have "char_of ` {48::nat, 49, 50, 51, 52, 53, 54, 55, 56, 57} = set ''0123456789''"
    by code_simp
  finally show "c \<in> set ''0123456789''" .
next
  assume "c \<in> set ''0123456789''"
  then show "isDigit c" by (auto simp: isDigit_def)
qed

lemma keptChar_iff: "keptChar c \<longleftrightarrow> c \<in> set ''0123456789.KM-''"
  unfolding keptChar_def isDigit_iff by auto

lemma replaceFirst_suffix: "c \<notin> set p \<Longrightarrow> replaceFirst c (p @ [c]) = p"
  by (simp add: replaceFirst_def remove1_append)

lemma parseValue_K:
  assumes "stripValue s = p @ ''K''" and "CHR ''K'' \<notin> set p"
  shows "parseValue s = map_option (\<lambda>v. v * 1000) (parseFloat p)"
  using assms by (simp add: parseValue_def replaceFirst_suffix)

lemma parseValue_M:
  assumes "stripValue s = p @ ''M''" and "CHR ''K'' \<notin> set p" and "CHR ''M'' \<notin> set p"
  shows "parseValue s = map_option (\<lambda>v. v * 1000000) (parseFloat p)"
  using assms by (simp add: parseValue_def replaceFirst_suffix)

lemma parseValue_plain:
  assumes "CHR ''K'' \<notin> set (stripValue s)" and "CHR ''M'' \<notin> set (stripValue s)"
  shows "parseValue s = parseFloat (stripValue s)"
  using assms by (simp add: parseValue_def)

lemma addPoint_NaN:
  assumes "readable_value point = Some s" and "parseValue s = None"
  shows "addPoint isEarn conv ethPrice issuerTotal point = issuerTotal"
  using assms by (simp add: addPoint_def)

lemma parseFloat_decimal:
  assumes "ds \<noteq> []" and "\<forall>c\<in>set ds. isDigit c" and "\<forall>c\<in>set fs. isDigit c"
  shows "parseFloat (ds @ ''.'' @ fs)
           = Some (of_nat (digitsValue ds) + of_nat (digitsValue fs) / 10 ^ length fs)"
    and "parseFloat ds = Some (of_nat (digitsValue ds))"
proof -
  obtain d rest where ds: "ds = d # rest" using assms(1) by (cases ds) auto
  have dd: "isDigit d" using assms(2) ds by simp
  have nd: "\<not> isDigit CHR ''.''" by (simp add: isDigit_def)
  have nm: "d \<noteq> CHR ''-''" using dd by (auto simp: isDigit_def)
  have neg: "(case ds @ CHR ''.'' # fs of [] \<Rightarrow> False | c # _ \<Rightarrow> c = CHR ''-'') = False"
    using ds nm by simp
  have neg2: "(case ds of [] \<Rightarrow> False | c # _ \<Rightarrow> c = CHR ''-'') = False"
    using ds nm by simp
  have tw: "takeWhile isDigit (ds @ CHR ''.'' # fs) = ds"
    using assms(2) nd by (simp add: takeWhile_append2)
  have dw: "dropWhile isDigit (ds @ CHR ''.'' # fs) = CHR ''.'' # fs"
    using assms(2) nd by (simp add: dropWhile_append2)
  have tf: "takeWhile isDigit fs = fs" using assms(3) by (simp add: takeWhile_eq_all_conv)
  show "parseFloat (ds @ ''.'' @ fs)
           = Some (of_nat (digitsValue ds) + of_nat (digitsValue fs) / 10 ^ length fs)"
    using assms(1) by (simp add: parseFloat_def Let_def neg tw dw tf)
  have tw2: "takeWhile isDigit ds = ds" using assms(2) by (simp add: takeWhile_eq_all_conv)
  have dw2: "dropWhile isDigit ds = []" using assms(2) by simp
  show "parseFloat ds = Some (of_nat (digitsValue ds))"
    using assms(1) by (simp add: parseFloat_def Let_def neg2 tw2 dw2 digitsValue_def)
qed

text \<open>
  Claim C3. The earnings parser keeps of a \<^verbatim>\<open>readable_value\<close> exactly the digits and the
  characters \<open>.\<close>, \<open>K\<close>, \<open>M\<close> and \<open>-\<close>, in their order. When what is kept is a prefix with
  no \<open>K\<close> followed by \<open>K\<close>, the value is 1000 times the number \<^verbatim>\<open>parseFloat\<close> reads
  from the prefix; when it is a prefix with no \<open>K\<close> and no \<open>M\<close> followed by \<open>M\<close>, it is
  1000000 times that number; with neither letter it is the number read from the whole.
  A prefix of digits reads as its decimal value, digits with a point and digits as the
  decimal fraction. When the value is not a number the point leaves the issuer's total
  as it was: no branch of the parser throws. In particular \<open>1.5K\<close> gives 1500, \<open>2M\<close>
  gives 2000000 and \<open>abc\<close> gives no number.
\<close>

theorem earnings_value_parser:
  "stripValue s = filter (\<lambda>c. c \<in> set ''0123456789.KM-'') s
   \<and> (stripValue s = p @ ''K'' \<and> CHR ''K'' \<notin> set p \<longrightarrow>
        parseValue s = map_option (\<lambda>v. v * 1000) (parseFloat p))
   \<and> (stripValue s = p @ ''M'' \<and> CHR ''K'' \<notin> set p \<and> CHR ''M'' \<notin> set p \<longrightarrow>
        parseValue s = map_option (\<lambda>v. v * 1000000) (parseFloat p))
   \<and> (CHR ''K'' \<notin> set (stripValue s) \<and> CHR ''M'' \<notin> set (stripValue s) \<longrightarrow>
        parseValue s = parseFloat (stripValue s))
   \<and> (ds \<noteq> [] \<and> (\<forall>c\<in>set ds. isDigit c) \<and> (\<forall>c\<in>set fs. isDigit c) \<longrightarrow>
        parseFloat ds = Some (of_nat (digitsValue ds))
      \<and> parseFloat (ds @ ''.'' @ fs)
          = Some (of_nat (digitsValue ds) + of_nat (digitsValue fs) / 10 ^ length fs))
   \<and> (readable_value point = Some s \<and> parseValue s = None \<longrightarrow>
        addPoint isEarn conv ethPrice issuerTotal point = issuerTotal)
   \<and> parseValue ''1.5K'' = Some 1500
   \<and> parseValue ''2M'' = Some 2000000
   \<and> parseValue ''abc'' = None"
proof -
  have strip: "stripValue s = filter (\<lambda>c. c \<in> set ''0123456789.KM-'') s"
    unfolding stripValue_def by (rule filter_cong) (simp_all only: keptChar_iff)
  have x1: "parseValue ''1.5K'' = Some 1500" by code_simp
  have x2: "parseValue ''2M'' = Some 2000000" by code_simp
  have x3: "parseValue ''abc'' = None" by code_simp
  show ?thesis
    using strip parseValue_K[of s p] parseValue_M[of s p] parseValue_plain[of s]
      parseFloat_decimal[of ds fs] addPoint_NaN[of point s isEarn conv ethPrice issuerTotal]
      x1 x2 x3
    by blast
qed

theorem earnings_value_parser_witness:
  "stripValue ''$1.5K'' = ''1.5'' @ ''K''
   \<and> CHR ''K'' \<notin> set ''1.5''
   \<and> parseValue ''$1.5K'' = map_option (\<lambda>v. v * 1000) (parseFloat ''1.5'')
   \<and> parseFloat ''1.5'' = Some (of_nat (digitsValue ''1'') + of_nat (digitsValue ''5'') / 10 ^ length ''5'')
   \<and> stripValue ''2M usd'' = ''2'' @ ''M''
   \<and> parseValue ''2M usd'' = map_option (\<lambda>v. v * 1000000) (parseFloat ''2'')
   \<and> parseValue ''abc'' = None
   \<and> addPoint sampleIsEarn convertEthToUsdc 3000 7 (samplePoint ''earnings'' ''abc'' ''USDC'') = 7"
proof -
  have k1: "stripValue ''$1.5K'' = ''1.5'' @ ''K''" by code_simp
  have k2: "CHR ''K'' \<notin> set ''1.5''" by simp
  have m1: "stripValue ''2M usd'' = ''2'' @ ''M''" by code_simp
  have m2: "CHR ''K'' \<notin> set ''2''" "CHR ''M'' \<notin> set ''2''" by simp_all
  have d1: "''1'' \<noteq> []" by simp
  have d2: "\<forall>c\<in>set ''1''. isDigit c" by (simp add: isDigit_def)
  have d3: "\<forall>c\<in>set ''5''. isDigit c" by (simp add: isDigit_def)
  have n1: "readable_value (samplePoint ''earnings'' ''abc'' ''USDC'') = Some ''abc''"
    by (simp add: samplePoint_def)
  note a = earnings_value_parser[where s = "''$1.5K''" and p = "''1.5''" and ds = "''1''"
      and fs = "''5''"]
  note b = earnings_value_parser[where s = "''2M usd''" and p = "''2''"]
  note c = earnings_value_parser[where s = "''abc''"
      and point = "samplePoint ''earnings'' ''abc'' ''USDC''" and isEarn = sampleIsEarn
      and conv = convertEthToUsdc and ethPrice = 3000 and issuerTotal = 7]
  from a k1 k2 d1 d2 d3 have
    "parseValue ''$1.5K'' = map_option (\<lambda>v. v * 1000) (parseFloat ''1.5'')"
    and "parseFloat ''1.5'' = Some (of_nat (digitsValue ''1'') + of_nat (digitsValue ''5'') / 10 ^ length ''5'')"
    by simp_all
  moreover from b m1 m2 have
    "parseValue ''2M usd'' = map_option (\<lambda>v. v * 1000000) (parseFloat ''2'')" by simp
  moreover from c n1 have "parseValue ''abc'' = None"
    and "addPoint sampleIsEarn convertEthToUsdc 3000 7 (samplePoint ''earnings'' ''abc'' ''USDC'') = 7"
    by simp_all
  ultimately show ?thesis using k1 k2 m1 by simp
qed




lemma addPoint_shift:
  "addPoint isEarn conv ethPrice t pt = t + addPoint isEarn conv ethPrice 0 pt"
  by (simp add: addPoint_def Let_def split: option.splits)

lemma foldl_addPoint:
  "foldl (addPoint isEarn conv ethPrice) a pts
     = a + sum_list (map (addPoint isEarn conv ethPrice 0) pts)"
proof (induction pts arbitrary: a)
  case Nil
  then show ?case by simp
next
  case (Cons pt pts)
  have "foldl (addPoint isEarn conv ethPrice) a (pt # pts)
          = foldl (addPoint isEarn conv ethPrice) (addPoint isEarn conv ethPrice a pt) pts"
    by simp
  also have "\<dots> = addPoint isEarn conv ethPrice a pt
                     + sum_list (map (addPoint isEarn conv ethPrice 0) pts)"
    by (rule Cons.IH)
  also have "addPoint isEarn conv ethPrice a pt = a + addPoint isEarn conv ethPrice 0 pt"
    by (rule addPoint_shift)
  finally show ?case by (simp add: add.assoc)
qed

lemma groupTotal_sum:
  "groupTotal isEarn conv ethPrice g
     = sum_list (map (addPoint isEarn conv ethPrice 0) (group_points g))"
  by (simp add: groupTotal_def foldl_addPoint)

lemma foldl_plus: "foldl (\<lambda>sum v. sum + v) (a::rat) vs = a + sum_list vs"
  by (induction vs arbitrary: a) (simp_all add: add.assoc)

lemma mapSet_fresh: "k \<notin> fst ` set m \<Longrightarrow> mapSet m k v = m @ [(k, v)]"
  by (induction m k v rule: mapSet.induct) auto

lemma mapSet_keys:
  "map fst (mapSet m k v) = (if k \<in> fst ` set m then map fst m else map fst m @ [k])"
  by (induction m k v rule: mapSet.induct) auto

lemma mapSet_entries: "set (mapSet m k v) \<subseteq> insert (k, v) (set m)"
  by (induction m k v rule: mapSet.induct) auto

lemma mapSet_distinct: "distinct (map fst m) \<Longrightarrow> distinct (map fst (mapSet m k v))"
  by (simp add: mapSet_keys)


lemma addGroup_counted:
  "countedGroup isEarn conv ethPrice g \<Longrightarrow>
   addGroup isEarn conv ethPrice m g = mapSet m (issuer g) (groupTotal isEarn conv ethPrice g)"
  by (simp add: addGroup_def countedGroup_def Let_def)

lemma addGroup_not_counted:
  "\<not> countedGroup isEarn conv ethPrice g \<Longrightarrow> addGroup isEarn conv ethPrice m g = m"
  by (auto simp: addGroup_def countedGroup_def Let_def)

lemma goodTotals_more:
  assumes "goodTotals isEarn conv ethPrice gs m"
  shows "goodTotals isEarn conv ethPrice (gs @ [g]) m"
proof -
  have "\<forall>e\<in>set m. snd e > 0 \<and> (\<exists>g'\<in>set (gs @ [g]). issuer g' = fst e
            \<and> countedGroup isEarn conv ethPrice g' \<and> groupTotal isEarn conv ethPrice g' = snd e)"
  proof
    fix e assume "e \<in> set m"
    with assms obtain g' where "snd e > 0" "g' \<in> set gs" "issuer g' = fst e"
       "countedGroup isEarn conv ethPrice g'" "groupTotal isEarn conv ethPrice g' = snd e"
      unfolding goodTotals_def by blast
    moreover then have "g' \<in> set (gs @ [g])" by simp
    ultimately show "snd e > 0 \<and> (\<exists>g'\<in>set (gs @ [g]). issuer g' = fst e
            \<and> countedGroup isEarn conv ethPrice g' \<and> groupTotal isEarn conv ethPrice g' = snd e)"
      by blast
  qed
  moreover have "distinct (map fst m)" using assms unfolding goodTotals_def by blast
  ultimately show ?thesis unfolding goodTotals_def by blast
qed

lemma addGroup_good:
  assumes "goodTotals isEarn conv ethPrice gs m"
  shows "goodTotals isEarn conv ethPrice (gs @ [g]) (addGroup isEarn conv ethPrice m g)"
proof (cases "countedGroup isEarn conv ethPrice g")
  case False
  then have "addGroup isEarn conv ethPrice m g = m" by (rule addGroup_not_counted)
  then show ?thesis using goodTotals_more[OF assms] by simp
next
  case True
  let ?v = "groupTotal isEarn conv ethPrice g"
  from True have eq: "addGroup isEarn conv ethPrice m g = mapSet m (issuer g) ?v"
    by (rule addGroup_counted)
  have d: "distinct (map fst (mapSet m (issuer g) ?v))"
    using assms by (simp add: goodTotals_def mapSet_distinct)
  have e: "\<forall>e\<in>set (mapSet m (issuer g) ?v).
               snd e > 0 \<and> (\<exists>g'\<in>set (gs @ [g]). issuer g' = fst e \<and> countedGroup isEarn conv ethPrice g'
                                   \<and> groupTotal isEarn conv ethPrice g' = snd e)"
  proof
    fix e assume "e \<in> set (mapSet m (issuer g) ?v)"
    with mapSet_entries[of m "issuer g" ?v] have "e = (issuer g, ?v) \<or> e \<in> set m"
      by blast
    then show "snd e > 0 \<and> (\<exists>g'\<in>set (gs @ [g]). issuer g' = fst e \<and> countedGroup isEarn conv ethPrice g'
                                   \<and> groupTotal isEarn conv ethPrice g' = snd e)"
    proof
      assume "e = (issuer g, ?v)"
      with True show ?thesis by (simp add: countedGroup_def)
    next
      assume "e \<in> set m"
      with goodTotals_more[OF assms, of g] show ?thesis unfolding goodTotals_def by blast
    qed
  qed
  from d e show ?thesis unfolding eq goodTotals_def by blast
qed



lemma issuerTotalsOf_good:
  "goodTotals isEarn conv ethPrice gs (issuerTotalsOf isEarn conv ethPrice gs)"
proof (induction gs rule: rev_induct)
  case Nil
  then show ?case by (simp add: goodTotals_def issuerTotalsOf_def)
next
  case (snoc g gs)
  then show ?case using addGroup_good[of isEarn conv ethPrice gs _ g]
    by (simp add: issuerTotalsOf_def)
qed

lemma issuerTotalsOf_distinct_issuers:
  assumes "distinct (map issuer (filter (countedGroup isEarn conv ethPrice) gs))"
  shows "issuerTotalsOf isEarn conv ethPrice gs
           = map (\<lambda>g. (issuer g, groupTotal isEarn conv ethPrice g))
               (filter (countedGroup isEarn conv ethPrice) gs)"
  using assms
proof (induction gs rule: rev_induct)
  case Nil
  then show ?case by (simp add: issuerTotalsOf_def)
next
  case (snoc g gs)
  let ?inc = "countedGroup isEarn conv ethPrice"
  from snoc.prems have d: "distinct (map issuer (filter ?inc gs))" by simp
  with snoc.IH have ih: "issuerTotalsOf isEarn conv ethPrice gs
           = map (\<lambda>g. (issuer g, groupTotal isEarn conv ethPrice g)) (filter ?inc gs)" by blast
  have st: "issuerTotalsOf isEarn conv ethPrice (gs @ [g])
              = addGroup isEarn conv ethPrice (issuerTotalsOf isEarn conv ethPrice gs) g"
    by (simp add: issuerTotalsOf_def)
  show ?case
  proof (cases "?inc g")
    case False
    then show ?thesis unfolding st ih by (simp add: addGroup_not_counted)
  next
    case True
    with snoc.prems have "issuer g \<notin> issuer ` set (filter ?inc gs)" by auto
    then have "issuer g \<notin> fst ` set (map (\<lambda>g. (issuer g, groupTotal isEarn conv ethPrice g))
                                         (filter ?inc gs))"
      by (auto simp: image_iff)
    from mapSet_fresh[OF this] True show ?thesis unfolding st ih
      by (simp add: addGroup_counted)
  qed
qed




lemma totalEarningsOf_sum:
  "totalEarningsOf isEarn conv ethPrice gs
     = sum_list (map snd (issuerTotalsOf isEarn conv ethPrice gs))"
  by (simp add: totalEarningsOf_def foldl_plus)

lemma totalEarningsOf_nonneg: "totalEarningsOf isEarn conv ethPrice gs \<ge> 0"
proof -
  have "\<And>v. v \<in> set (map snd (issuerTotalsOf isEarn conv ethPrice gs)) \<Longrightarrow> 0 \<le> v"
  proof -
    fix v assume "v \<in> set (map snd (issuerTotalsOf isEarn conv ethPrice gs))"
    then obtain e where "e \<in> set (issuerTotalsOf isEarn conv ethPrice gs)" "v = snd e" by auto
    with issuerTotalsOf_good[of isEarn conv ethPrice gs] have "0 < v"
      unfolding goodTotals_def by blast
    then show "0 \<le> v" by simp
  qed
  then show ?thesis unfolding totalEarningsOf_sum by (rule sum_list_nonneg)
qed

lemma addGroup_no_earnings:
  "\<not> hasEarningsCredentials isEarn g \<Longrightarrow> addGroup isEarn conv ethPrice m g = m"
  by (simp add: addGroup_def)

lemma totalEarningsOf_skip:
  "\<not> hasEarningsCredentials isEarn g \<Longrightarrow>
   totalEarningsOf isEarn conv ethPrice (xs @ g # ys) = totalEarningsOf isEarn conv ethPrice (xs @ ys)"
  by (simp add: totalEarningsOf_def issuerTotalsOf_def addGroup_no_earnings)

lemma addPoint_units:
  assumes "isEarn (slugOrEmpty pt)" and "readable_value pt = Some rv" and "rv \<noteq> []"
    and "parseValue rv = Some v"
  shows "uom pt = Some ''ETH'' \<Longrightarrow> addPoint isEarn conv ethPrice t pt = t + conv v ethPrice"
    and "uom pt = Some ''USDC'' \<Longrightarrow> addPoint isEarn conv ethPrice t pt = t + v"
    and "uom pt \<noteq> Some ''ETH'' \<Longrightarrow> uom pt \<noteq> Some ''USDC'' \<Longrightarrow> addPoint isEarn conv ethPrice t pt = t"
  using assms by (auto simp: addPoint_def truthy_def Let_def split: option.splits)

lemma addPoint_missing:
  "\<not> truthy (readable_value pt) \<or> \<not> truthy (uom pt) \<or> \<not> isEarn (slugOrEmpty pt) \<Longrightarrow>
   addPoint isEarn conv ethPrice t pt = t"
  by (auto simp: addPoint_def)

lemma map_of_mapSet: "map_of (mapSet m k v) = (map_of m)(k \<mapsto> v)"
  by (induction m k v rule: mapSet.induct) auto

lemma map_of_issuerTotalsOf:
  "map_of (issuerTotalsOf isEarn conv ethPrice gs) k
     = (if filter (\<lambda>g. issuer g = k \<and> countedGroup isEarn conv ethPrice g) gs = [] then None
        else Some (groupTotal isEarn conv ethPrice
               (last (filter (\<lambda>g. issuer g = k \<and> countedGroup isEarn conv ethPrice g) gs))))"
proof (induction gs rule: rev_induct)
  case Nil
  then show ?case by (simp add: issuerTotalsOf_def)
next
  case (snoc g gs)
  have st: "issuerTotalsOf isEarn conv ethPrice (gs @ [g])
              = addGroup isEarn conv ethPrice (issuerTotalsOf isEarn conv ethPrice gs) g"
    by (simp add: issuerTotalsOf_def)
  show ?case
  proof (cases "countedGroup isEarn conv ethPrice g")
    case False
    then show ?thesis unfolding st using snoc.IH by (simp add: addGroup_not_counted)
  next
    case True
    then show ?thesis unfolding st using snoc.IH
      by (simp add: addGroup_counted map_of_mapSet)
  qed
qed

text \<open>
  Claim C4, as amended. For every list of credential groups and every rate: an
  earnings-tagged point with a readable value that parses to \<open>v\<close> adds \<open>v\<close> times the rate
  when its unit is \<open>ETH\<close> (\<^verbatim>\<open>convertEthToUsdc\<close>), \<open>v\<close> when its unit is \<open>USDC\<close>, and nothing
  for any other unit; a point whose readable value or unit is missing adds nothing. The
  total of a group is the sum of what its points add. When no two groups that are stored
  (groups with an earnings-tagged point and a positive total) have the same issuer, the
  map holds each stored group's issuer with that group's total, and \<open>totalEarnings\<close> is the
  sum of these totals. For every list, the map has at most one entry for an issuer, every
  entry is positive and is the total of a stored group of that issuer, namely of the last
  stored group of that issuer in the list (an issuer with no stored group has no entry);
  a group with no earnings-tagged point leaves the map and \<open>totalEarnings\<close> as they are
  without it; and \<open>totalEarnings\<close> is not negative.
\<close>

theorem total_earnings_aggregation:
  "(isEarn (slugOrEmpty pt) \<and> readable_value pt = Some rv \<and> rv \<noteq> [] \<and> parseValue rv = Some v \<longrightarrow>
        (uom pt = Some ''ETH'' \<longrightarrow> addPoint isEarn conv ethPrice t pt = t + conv v ethPrice)
      \<and> (uom pt = Some ''USDC'' \<longrightarrow> addPoint isEarn conv ethPrice t pt = t + v)
      \<and> (uom pt \<noteq> Some ''ETH'' \<and> uom pt \<noteq> Some ''USDC'' \<longrightarrow>
           addPoint isEarn conv ethPrice t pt = t))
   \<and> convertEthToUsdc v ethPrice = v * ethPrice
   \<and> (\<not> truthy (readable_value pt) \<or> \<not> truthy (uom pt) \<longrightarrow>
        addPoint isEarn conv ethPrice t pt = t)
   \<and> groupTotal isEarn conv ethPrice g
       = sum_list (map (addPoint isEarn conv ethPrice 0) (group_points g))
   \<and> (distinct (map issuer (filter (countedGroup isEarn conv ethPrice) gs)) \<longrightarrow>
        issuerTotalsOf isEarn conv ethPrice gs
          = map (\<lambda>g. (issuer g, groupTotal isEarn conv ethPrice g))
              (filter (countedGroup isEarn conv ethPrice) gs)
      \<and> totalEarningsOf isEarn conv ethPrice gs
          = sum_list (map (groupTotal isEarn conv ethPrice)
              (filter (countedGroup isEarn conv ethPrice) gs)))
   \<and> distinct (map fst (issuerTotalsOf isEarn conv ethPrice gs))
   \<and> (\<forall>e\<in>set (issuerTotalsOf isEarn conv ethPrice gs).
         snd e > 0
         \<and> (\<exists>g\<in>set gs. issuer g = fst e \<and> countedGroup isEarn conv ethPrice g
                         \<and> groupTotal isEarn conv ethPrice g = snd e))
   \<and> map_of (issuerTotalsOf isEarn conv ethPrice gs) k
       = (if filter (\<lambda>g. issuer g = k \<and> countedGroup isEarn conv ethPrice g) gs = [] then None
          else Some (groupTotal isEarn conv ethPrice
                 (last (filter (\<lambda>g. issuer g = k \<and> countedGroup isEarn conv ethPrice g) gs))))
   \<and> (\<not> hasEarningsCredentials isEarn g \<longrightarrow>
        addGroup isEarn conv ethPrice m g = m
      \<and> totalEarningsOf isEarn conv ethPrice (xs @ g # ys)
          = totalEarningsOf isEarn conv ethPrice (xs @ ys))
   \<and> totalEarningsOf isEarn conv ethPrice gs \<ge> 0"
proof -
  have units: "isEarn (slugOrEmpty pt) \<and> readable_value pt = Some rv \<and> rv \<noteq> [] \<and> parseValue rv = Some v \<longrightarrow>
        (uom pt = Some ''ETH'' \<longrightarrow> addPoint isEarn conv ethPrice t pt = t + conv v ethPrice)
      \<and> (uom pt = Some ''USDC'' \<longrightarrow> addPoint isEarn conv ethPrice t pt = t + v)
      \<and> (uom pt \<noteq> Some ''ETH'' \<and> uom pt \<noteq> Some ''USDC'' \<longrightarrow>
           addPoint isEarn conv ethPrice t pt = t)"
    using addPoint_units[of isEarn pt rv v conv ethPrice t] by blast
  have conv: "convertEthToUsdc v ethPrice = v * ethPrice" by (simp add: convertEthToUsdc_def)
  have missing: "\<not> truthy (readable_value pt) \<or> \<not> truthy (uom pt) \<longrightarrow>
        addPoint isEarn conv ethPrice t pt = t"
    using addPoint_missing[of pt isEarn conv ethPrice t] by blast
  have dist: "distinct (map issuer (filter (countedGroup isEarn conv ethPrice) gs)) \<longrightarrow>
        issuerTotalsOf isEarn conv ethPrice gs
          = map (\<lambda>g. (issuer g, groupTotal isEarn conv ethPrice g))
              (filter (countedGroup isEarn conv ethPrice) gs)
      \<and> totalEarningsOf isEarn conv ethPrice gs
          = sum_list (map (groupTotal isEarn conv ethPrice)
              (filter (countedGroup isEarn conv ethPrice) gs))"
  proof
    assume d: "distinct (map issuer (filter (countedGroup isEarn conv ethPrice) gs))"
    have 1: "issuerTotalsOf isEarn conv ethPrice gs
          = map (\<lambda>g. (issuer g, groupTotal isEarn conv ethPrice g))
              (filter (countedGroup isEarn conv ethPrice) gs)"
      using d by (rule issuerTotalsOf_distinct_issuers)
    have 2: "totalEarningsOf isEarn conv ethPrice gs
          = sum_list (map (groupTotal isEarn conv ethPrice)
              (filter (countedGroup isEarn conv ethPrice) gs))"
      unfolding totalEarningsOf_sum 1 by (simp add: comp_def)
    from 1 2 show "issuerTotalsOf isEarn conv ethPrice gs
          = map (\<lambda>g. (issuer g, groupTotal isEarn conv ethPrice g))
              (filter (countedGroup isEarn conv ethPrice) gs)
      \<and> totalEarningsOf isEarn conv ethPrice gs
          = sum_list (map (groupTotal isEarn conv ethPrice)
              (filter (countedGroup isEarn conv ethPrice) gs))" by (rule conjI)
  qed
  have good: "distinct (map fst (issuerTotalsOf isEarn conv ethPrice gs))"
    "\<forall>e\<in>set (issuerTotalsOf isEarn conv ethPrice gs).
         snd e > 0
         \<and> (\<exists>g\<in>set gs. issuer g = fst e \<and> countedGroup isEarn conv ethPrice g
                         \<and> groupTotal isEarn conv ethPrice g = snd e)"
    using issuerTotalsOf_good[of isEarn conv ethPrice gs] unfolding goodTotals_def by blast+
  have skip: "\<not> hasEarningsCredentials isEarn g \<longrightarrow>
        addGroup isEarn conv ethPrice m g = m
      \<and> totalEarningsOf isEarn conv ethPrice (xs @ g # ys)
          = totalEarningsOf isEarn conv ethPrice (xs @ ys)"
    using addGroup_no_earnings[of isEarn g conv ethPrice m]
      totalEarningsOf_skip[of isEarn g conv ethPrice xs ys] by blast
  from units conv missing groupTotal_sum[of isEarn conv ethPrice g] dist good
    map_of_issuerTotalsOf[of isEarn conv ethPrice gs k] skip
    totalEarningsOf_nonneg[of isEarn conv ethPrice gs]
  show ?thesis by (intro conjI)
qed

theorem total_earnings_aggregation_witness:
  "distinct (map issuer (filter (countedGroup sampleIsEarn convertEthToUsdc 3000) sampleGroups))
   \<and> issuerTotalsOf sampleIsEarn convertEthToUsdc 3000 sampleGroups
       = map (\<lambda>g. (issuer g, groupTotal sampleIsEarn convertEthToUsdc 3000 g))
           (filter (countedGroup sampleIsEarn convertEthToUsdc 3000) sampleGroups)
   \<and> totalEarningsOf sampleIsEarn convertEthToUsdc 3000 sampleGroups
       = sum_list (map (groupTotal sampleIsEarn convertEthToUsdc 3000)
           (filter (countedGroup sampleIsEarn convertEthToUsdc 3000) sampleGroups))
   \<and> totalEarningsOf sampleIsEarn convertEthToUsdc 3000 sampleGroups = 4500
   \<and> addPoint sampleIsEarn convertEthToUsdc 3000 0 (samplePoint ''earnings'' ''1'' ''ETH'')
       = 0 + convertEthToUsdc 1 3000
   \<and> convertEthToUsdc 1 3000 = 1 * 3000
   \<and> \<not> hasEarningsCredentials sampleIsEarn (sampleGroups ! 2)
   \<and> totalEarningsOf sampleIsEarn convertEthToUsdc 3000 (take 2 sampleGroups @ sampleGroups ! 2 # [])
       = totalEarningsOf sampleIsEarn convertEthToUsdc 3000 (take 2 sampleGroups @ [])"
proof -
  have d: "distinct (map issuer (filter (countedGroup sampleIsEarn convertEthToUsdc 3000) sampleGroups))"
    by code_simp
  have v: "totalEarningsOf sampleIsEarn convertEthToUsdc 3000 sampleGroups = 4500"
    by code_simp
  have e: "sampleIsEarn (slugOrEmpty (samplePoint ''earnings'' ''1'' ''ETH''))
           \<and> readable_value (samplePoint ''earnings'' ''1'' ''ETH'') = Some ''1''
           \<and> ''1'' \<noteq> [] \<and> parseValue ''1'' = Some 1"
    by code_simp
  have u: "uom (samplePoint ''earnings'' ''1'' ''ETH'') = Some ''ETH''"
    by (simp add: samplePoint_def)
  have n: "\<not> hasEarningsCredentials sampleIsEarn (sampleGroups ! 2)"
    by code_simp
  note t = total_earnings_aggregation[where isEarn = sampleIsEarn and conv = convertEthToUsdc
      and ethPrice = 3000 and gs = sampleGroups and pt = "samplePoint ''earnings'' ''1'' ''ETH''"
      and rv = "''1''" and v = 1 and t = 0 and g = "sampleGroups ! 2"
      and xs = "take 2 sampleGroups" and ys = "[]"]
  from t d v e u n show ?thesis by blast
qed

text \<open>
  Claim C4 as it is stated fails on two groups of one issuer: \<^verbatim>\<open>Map.prototype.set\<close>
  replaces the first group's total (10) by the second's (5), so \<open>totalEarnings\<close> is 5 and
  not the sum 15 of the issuer's contributions.
\<close>

theorem same_issuer_totals_overwritten:
  "issuerTotalsOf sampleIsEarn convertEthToUsdc 3000 sameIssuerGroups = [(''zora'', 5)]
   \<and> totalEarningsOf sampleIsEarn convertEthToUsdc 3000 sameIssuerGroups = 5
   \<and> sum_list (map (groupTotal sampleIsEarn convertEthToUsdc 3000) sameIssuerGroups) = 15"
  by code_simp

section \<open>Share image endpoint: answers and background\<close>

lemma profileCallback_ok: "profileCallback up talentUUID = Inr c \<Longrightarrow> cached_ok c"
  by (auto simp: profileCallback_def split: sum.splits if_splits)

lemma profileCallback_not_ok:
  "getProfile up talentUUID = Inr response \<Longrightarrow> \<not> ok response \<Longrightarrow>
   \<exists>t. profileCallback up talentUUID = Inl t"
  by (simp add: profileCallback_def)

lemma tryGET_Inr:
  assumes "tryGET isEarn followers up talentUUID = Inr r"
  shows "\<exists>profileData ethPrice fonts png.
           getEthUsdcPrice up = Inr ethPrice
         \<and> promiseAll (map (fetchFont up) fontFiles) = Inr fonts
         \<and> renderImage up (payloadOf isEarn followers up talentUUID profileData ethPrice) fonts = Inr png
         \<and> r = imageAnswer (payloadOf isEarn followers up talentUUID profileData ethPrice) png"
proof -
  from assms obtain c where c: "profileCallback up talentUUID = Inr c"
    by (auto simp: tryGET_def split: sum.splits)
  then have okc: "cached_ok c" by (rule profileCallback_ok)
  from assms c okc obtain ethPrice where e: "getEthUsdcPrice up = Inr ethPrice"
    by (auto simp: tryGET_def split: sum.splits)
  from assms c okc e obtain fonts where f: "promiseAll (map (fetchFont up) fontFiles) = Inr fonts"
    by (auto simp: tryGET_def Let_def split: sum.splits)
  from assms c okc e f obtain png where
    p: "renderImage up (payloadOf isEarn followers up talentUUID (cached_data c) ethPrice) fonts = Inr png"
    by (auto simp: tryGET_def Let_def split: sum.splits)
  from assms c okc e f p
  have "r = imageAnswer (payloadOf isEarn followers up talentUUID (cached_data c) ethPrice) png"
    by (simp add: tryGET_def Let_def)
  with e f p show ?thesis by blast
qed

lemma payloadOf_background:
  "backgroundImage (payloadOf isEarn followers up talentUUID profileData ethPrice)
     = backgroundImageFor talentUUID"
  by (simp add: payloadOf_def Let_def)

lemma GET_cases:
  "GET isEarn followers up talentUUID = serverError
   \<or> (res_status (GET isEarn followers up talentUUID) = 200
       \<and> (\<exists>payload png. res_body (GET isEarn followers up talentUUID) = ImageBody payload png
             \<and> backgroundImage payload = backgroundImageFor talentUUID))"
proof (cases "tryGET isEarn followers up talentUUID")
  case (Inl t)
  then show ?thesis by (simp add: GET_def)
next
  case (Inr r)
  from tryGET_Inr[OF Inr] obtain profileData ethPrice png where
    "r = imageAnswer (payloadOf isEarn followers up talentUUID profileData ethPrice) png"
    by blast
  with Inr show ?thesis by (simp add: GET_def imageAnswer_def payloadOf_background)
qed

lemma tryGET_stage_failures:
  assumes "(\<exists>t. profileCallback up talentUUID = Inl t) \<or> (\<exists>t. getEthUsdcPrice up = Inl t)
   \<or> (\<exists>t. promiseAll (map (fetchFont up) fontFiles) = Inl t)
   \<or> (\<forall>payload fonts. \<exists>t. renderImage up payload fonts = Inl t)"
  shows "\<exists>t. tryGET isEarn followers up talentUUID = Inl t"
proof (cases "tryGET isEarn followers up talentUUID")
  case (Inl t)
  then show ?thesis by blast
next
  case (Inr r)
  from tryGET_Inr[OF Inr] obtain profileData ethPrice fonts png where
    s: "getEthUsdcPrice up = Inr ethPrice"
       "promiseAll (map (fetchFont up) fontFiles) = Inr fonts"
       "renderImage up (payloadOf isEarn followers up talentUUID profileData ethPrice) fonts = Inr png"
    by blast
  from Inr obtain c where "profileCallback up talentUUID = Inr c"
    by (auto simp: tryGET_def split: sum.splits)
  with assms s have False by (metis sum.distinct(1))
  then show ?thesis ..
qed

text \<open>
  Claim C1, on the code. When the profile request is answered with a response that is
  not ok (the subject does not resolve to a profile), the cached callback throws, the
  throw lands in the \<^verbatim>\<open>catch\<close> clause of \<^verbatim>\<open>GET\<close>, and the answer is the JSON error
  with status 500, not 404: no input makes \<^verbatim>\<open>GET\<close> answer 404. The same JSON error
  with status 500 is the answer when the profile request, the exchange rate, a font or
  the rendering throws.
\<close>

theorem unknown_subject_answer:
  "(getProfile up talentUUID = Inr response \<and> \<not> ok response \<longrightarrow>
      GET isEarn followers up talentUUID = serverError)
   \<and> res_status serverError = 500
   \<and> res_body serverError = JsonError ''Failed to generate image''
   \<and> res_status (GET isEarn followers up talentUUID) \<noteq> 404
   \<and> ((\<exists>t. getProfile up talentUUID = Inl t) \<or> (\<exists>t. getEthUsdcPrice up = Inl t)
        \<or> (\<exists>t. promiseAll (map (fetchFont up) fontFiles) = Inl t)
        \<or> (\<forall>payload fonts. \<exists>t. renderImage up payload fonts = Inl t) \<longrightarrow>
      GET isEarn followers up talentUUID = serverError)"
proof -
  have a: "getProfile up talentUUID = Inr response \<and> \<not> ok response \<longrightarrow>
      GET isEarn followers up talentUUID = serverError"
  proof
    assume "getProfile up talentUUID = Inr response \<and> \<not> ok response"
    then have "\<exists>t. profileCallback up talentUUID = Inl t"
      using profileCallback_not_ok by blast
    then have "\<exists>t. tryGET isEarn followers up talentUUID = Inl t"
      using tryGET_stage_failures by blast
    then show "GET isEarn followers up talentUUID = serverError" by (auto simp: GET_def)
  qed
  have b: "res_status serverError = 500" "res_body serverError = JsonError ''Failed to generate image''"
    by (simp_all add: serverError_def)
  have c: "res_status (GET isEarn followers up talentUUID) \<noteq> 404"
    using GET_cases[of isEarn followers up talentUUID] b(1) by auto
  have d: "(\<exists>t. getProfile up talentUUID = Inl t) \<or> (\<exists>t. getEthUsdcPrice up = Inl t)
        \<or> (\<exists>t. promiseAll (map (fetchFont up) fontFiles) = Inl t)
        \<or> (\<forall>payload fonts. \<exists>t. renderImage up payload fonts = Inl t) \<longrightarrow>
      GET isEarn followers up talentUUID = serverError"
  proof
    assume h: "(\<exists>t. getProfile up talentUUID = Inl t) \<or> (\<exists>t. getEthUsdcPrice up = Inl t)
        \<or> (\<exists>t. promiseAll (map (fetchFont up) fontFiles) = Inl t)
        \<or> (\<forall>payload fonts. \<exists>t. renderImage up payload fonts = Inl t)"
    have "(\<exists>t. getProfile up talentUUID = Inl t) \<Longrightarrow> \<exists>t. profileCallback up talentUUID = Inl t"
      by (auto simp: profileCallback_def)
    with h have "(\<exists>t. profileCallback up talentUUID = Inl t) \<or> (\<exists>t. getEthUsdcPrice up = Inl t)
        \<or> (\<exists>t. promiseAll (map (fetchFont up) fontFiles) = Inl t)
        \<or> (\<forall>payload fonts. \<exists>t. renderImage up payload fonts = Inl t)" by blast
    then have "\<exists>t. tryGET isEarn followers up talentUUID = Inl t"
      by (rule tryGET_stage_failures)
    then show "GET isEarn followers up talentUUID = serverError" by (auto simp: GET_def)
  qed
  from a b c d show ?thesis by (intro conjI)
qed

theorem unknown_subject_answer_witness:
  "getProfile unknownSubject sampleUUID
     = Inr \<lparr>ok = False, status = 404,
            json = Inr \<lparr>display_name = None, name = None, image_url = None\<rparr>\<rparr>
   \<and> GET sampleIsEarn (\<lambda>_. 0) unknownSubject sampleUUID = serverError
   \<and> res_status (GET sampleIsEarn (\<lambda>_. 0) unknownSubject sampleUUID) = 500"
proof -
  have h: "getProfile unknownSubject sampleUUID
     = Inr \<lparr>ok = False, status = 404,
            json = Inr \<lparr>display_name = None, name = None, image_url = None\<rparr>\<rparr>"
    by (simp add: unknownSubject_def)
  have n: "\<not> ok \<lparr>ok = False, status = 404,
            json = Inr \<lparr>display_name = None, name = None, image_url = None\<rparr>\<rparr>" by simp
  from unknown_subject_answer[where up = unknownSubject and talentUUID = sampleUUID
      and isEarn = sampleIsEarn and followers = "\<lambda>_. 0"
      and response = "\<lparr>ok = False, status = 404,
            json = Inr \<lparr>display_name = None, name = None, image_url = None\<rparr>\<rparr>"] h n
  show ?thesis by simp
qed

text \<open>
  Claim C9. Whenever \<^verbatim>\<open>GET\<close> answers with an image, the background of its layout is
  \<open>backgroundImageFor\<close> of the identifier, whatever the upstream calls yielded: two
  answers for the same identifier have the same background. For an identifier with a
  first code unit \<open>c\<close> the background is \<open>background.png\<close> when \<open>c mod 2 = 0\<close> and
  \<open>background-2.png\<close> otherwise; it is always one of the two.
\<close>

theorem background_depends_on_identifier_only:
  "(res_body (GET isEarn followers up talentUUID) = ImageBody payload png \<longrightarrow>
      backgroundImage payload = backgroundImageFor talentUUID)
   \<and> (res_body (GET isEarn followers up talentUUID) = ImageBody payload png
      \<and> res_body (GET isEarn' followers' up' talentUUID) = ImageBody payload' png' \<longrightarrow>
      backgroundImage payload = backgroundImage payload')
   \<and> (talentUUID = c # rest \<longrightarrow>
      backgroundImageFor talentUUID
        = (if unat c mod 2 = 0 then ''background.png'' else ''background-2.png''))
   \<and> (backgroundImageFor talentUUID = ''background.png''
      \<or> backgroundImageFor talentUUID = ''background-2.png'')"
proof -
  have one: "\<And>isEarn followers up payload png.
     res_body (GET isEarn followers up talentUUID) = ImageBody payload png \<Longrightarrow>
      backgroundImage payload = backgroundImageFor talentUUID"
  proof -
    fix isEarn followers up payload png
    assume b: "res_body (GET isEarn followers up talentUUID) = ImageBody payload png"
    from GET_cases[of isEarn followers up talentUUID] b
    show "backgroundImage payload = backgroundImageFor talentUUID"
      by (auto simp: serverError_def)
  qed
  have three: "talentUUID = c # rest \<longrightarrow>
      backgroundImageFor talentUUID
        = (if unat c mod 2 = 0 then ''background.png'' else ''background-2.png'')"
    by (simp add: backgroundImageFor_def backgroundIndex_def charCodeAt0_def)
  have four: "backgroundImageFor talentUUID = ''background.png''
      \<or> backgroundImageFor talentUUID = ''background-2.png''"
    by (simp add: backgroundImageFor_def)
  from one[of isEarn followers up payload png] one[of isEarn' followers' up' payload' png']
    three four
  show ?thesis by simp
qed

theorem background_depends_on_identifier_only_witness:
  "res_body (GET sampleIsEarn (\<lambda>_. 0) knownSubject sampleUUID)
     = ImageBody (payloadOf sampleIsEarn (\<lambda>_. 0) knownSubject sampleUUID
                    \<lparr>display_name = Some ''Ada'', name = None, image_url = None\<rparr> 3000)
         [137, 80, 78, 71]
   \<and> res_body (GET (\<lambda>_. True) (\<lambda>_. 1) otherSubject sampleUUID)
     = ImageBody (payloadOf (\<lambda>_. True) (\<lambda>_. 1) otherSubject sampleUUID
                    \<lparr>display_name = None, name = Some ''Grace'',
                     image_url = Some ''https://example.org/g.png''\<rparr> 2500)
         [137, 80, 78, 71, 13]
   \<and> backgroundImage (payloadOf sampleIsEarn (\<lambda>_. 0) knownSubject sampleUUID
                    \<lparr>display_name = Some ''Ada'', name = None, image_url = None\<rparr> 3000)
     = backgroundImage (payloadOf (\<lambda>_. True) (\<lambda>_. 1) otherSubject sampleUUID
                    \<lparr>display_name = None, name = Some ''Grace'',
                     image_url = Some ''https://example.org/g.png''\<rparr> 2500)
   \<and> sampleUUID = 97 # [49]
   \<and> backgroundImageFor sampleUUID
       = (if unat (97 :: 16 word) mod 2 = 0 then ''background.png'' else ''background-2.png'')"
proof -
  have a: "res_body (GET sampleIsEarn (\<lambda>_. 0) knownSubject sampleUUID)
     = ImageBody (payloadOf sampleIsEarn (\<lambda>_. 0) knownSubject sampleUUID
                    \<lparr>display_name = Some ''Ada'', name = None, image_url = None\<rparr> 3000)
         [137, 80, 78, 71]"
    by (simp add: GET_def tryGET_def profileCallback_def knownSubject_def fontFiles_def
          imageAnswer_def Let_def)
  have b: "res_body (GET (\<lambda>_. True) (\<lambda>_. 1) otherSubject sampleUUID)
     = ImageBody (payloadOf (\<lambda>_. True) (\<lambda>_. 1) otherSubject sampleUUID
                    \<lparr>display_name = None, name = Some ''Grace'',
                     image_url = Some ''https://example.org/g.png''\<rparr> 2500)
         [137, 80, 78, 71, 13]"
    by (simp add: GET_def tryGET_def profileCallback_def otherSubject_def fontFiles_def
          imageAnswer_def Let_def)
  have c: "sampleUUID = 97 # [49]" by (simp add: sampleUUID_def)
  note t = background_depends_on_identifier_only[where isEarn = sampleIsEarn
      and followers = "\<lambda>_. 0" and up = knownSubject and talentUUID = sampleUUID
      and isEarn' = "\<lambda>_. True" and followers' = "\<lambda>_. 1" and up' = otherSubject
      and c = 97 and rest = "[49]"]
  from t a b c show ?thesis by blast
qed

section \<open>Refresh controller: guard and state machine\<close>

lemma clearError_fields:
  "refreshError (clearError c) = None" "isRefreshing (clearError c) = isRefreshing c"
  "inFlight (clearError c) = inFlight c" "successMessage (clearError c) = successMessage c"
  by (simp_all add: clearError_def)

lemma refreshScore_rejected:
  "talentUUID = [] \<or> isRefreshingConst \<Longrightarrow>
   refreshScore talentUUID analyticsData isRefreshingConst c = c"
  by (auto simp: refreshScore_def)

lemma refreshScore_accepted:
  assumes "talentUUID \<noteq> []" and "\<not> isRefreshingConst"
  shows "isRefreshing (refreshScore talentUUID analyticsData isRefreshingConst c)"
    and "refreshError (refreshScore talentUUID analyticsData isRefreshingConst c) = None"
    and "successMessage (refreshScore talentUUID analyticsData isRefreshingConst c) = None"
    and "inFlight (refreshScore talentUUID analyticsData isRefreshingConst c) = inFlight c + 1"
    and "issued (refreshScore talentUUID analyticsData isRefreshingConst c)
           = issued c @ [talentUUID]"
  using assms by (simp_all add: refreshScore_def Let_def split: option.splits)

lemma refreshSettled_success:
  assumes "success result"
  shows "successMessage (refreshSettled onSuccess (Inr result) c) = Some ''Calculation enqueued''"
    and "refreshError (refreshSettled onSuccess (Inr result) c) = refreshError c"
    and "isRefreshing (refreshSettled onSuccess (Inr result) c) = isRefreshing c"
  using assms by (simp_all add: refreshSettled_def Let_def)

lemma refreshSettled_failure:
  assumes "\<not> success result"
  shows "refreshError (refreshSettled onSuccess (Inr result) c)
           = Some (orString (result_error result) ''Failed to trigger calculation'')"
    and "\<not> isRefreshing (refreshSettled onSuccess (Inr result) c)"
  using assms by (simp_all add: refreshSettled_def Let_def)

lemma refreshSettled_thrown:
  "refreshError (refreshSettled onSuccess (Inl err) c)
     = Some (case err of ErrorObject message \<Rightarrow> message
             | OtherThrown \<Rightarrow> ''Failed to trigger calculation'')"
  "\<not> isRefreshing (refreshSettled onSuccess (Inl err) c)"
  by (simp_all add: refreshSettled_def Let_def)

lemma refreshSettled_inFlight:
  "inFlight (refreshSettled onSuccess outcome c) = inFlight c - 1"
  by (simp add: refreshSettled_def Let_def split: sum.splits)

lemma error_removed_only_by:
  assumes "refreshError c \<noteq> None" and "refreshError (step c e) = None"
  shows "e = ClearError \<or> accepted c e"
proof (cases e)
  case Render
  with assms show ?thesis by simp
next
  case (Refresh talentUUID analyticsData)
  show ?thesis
  proof (cases "talentUUID = [] \<or> renderedIsRefreshing c")
    case True
    then have "step c e = c" using Refresh by (simp add: refreshScore_rejected)
    with assms show ?thesis by simp
  next
    case False
    then show ?thesis using Refresh by simp
  qed
next
  case (Settled onSuccess outcome)
  show ?thesis
  proof (cases "inFlight c = 0")
    case True
    then have "step c e = c" using Settled by simp
    with assms show ?thesis by simp
  next
    case False
    then have s: "step c e = refreshSettled onSuccess outcome c" using Settled by simp
    show ?thesis
    proof (cases outcome)
      case (Inl err)
      with s assms(2) refreshSettled_thrown(1)[of onSuccess err c] show ?thesis by simp
    next
      case (Inr result)
      show ?thesis
      proof (cases "success result")
        case True
        with s Inr assms refreshSettled_success(2)[of result onSuccess c] show ?thesis by simp
      next
        case False
        with s Inr assms(2) refreshSettled_failure(1)[of result onSuccess c] show ?thesis by simp
      qed
    qed
  qed
next
  case ClearError
  then show ?thesis by simp
qed

lemma orString_truthy: "b \<noteq> [] \<Longrightarrow> truthy (Some (orString a b))"
  by (simp add: orString_def truthy_def split: option.splits)

lemma render_fields:
  "renderedIsRefreshing (step c Render) = isRefreshing c"
  "isRefreshing (step c Render) = isRefreshing c"
  "inFlight (step c Render) = inFlight c"
  by simp_all

lemma render_onePending: "onePending c \<Longrightarrow> onePending (step c Render)"
  by (simp add: onePending_def)

lemma settled_onePending: "onePending c \<Longrightarrow> onePending (step c (Settled onSuccess outcome))"
proof (cases "inFlight c = 0")
  case True
  assume "onePending c"
  with True show ?thesis by simp
next
  case False
  assume "onePending c"
  with False have "inFlight c = 1" by (auto simp: onePending_def)
  then have "inFlight (refreshSettled onSuccess outcome c) = 0"
    by (simp add: refreshSettled_inFlight)
  then show ?thesis using False by (simp add: onePending_def)
qed

lemma clearError_onePending: "onePending c \<Longrightarrow> onePending (step c ClearError)"
  by (simp add: onePending_def clearError_fields)

lemma refresh_after_render_onePending:
  assumes "onePending c"
  shows "onePending (step (step c Render) (Refresh talentUUID analyticsData))"
proof (cases "talentUUID = [] \<or> isRefreshing c")
  case True
  then have "step (step c Render) (Refresh talentUUID analyticsData) = step c Render"
    by (simp add: refreshScore_rejected)
  with render_onePending[OF assms] show ?thesis by simp
next
  case False
  then have n: "talentUUID \<noteq> []" "\<not> isRefreshing c" by simp_all
  with assms have z: "inFlight c = 0" by (auto simp: onePending_def)
  have s: "step (step c Render) (Refresh talentUUID analyticsData)
             = refreshScore talentUUID analyticsData (isRefreshing c) (step c Render)"
    by simp
  from refreshScore_accepted(1,4)[OF n, of analyticsData "step c Render"] z
  show ?thesis unfolding s by (simp add: onePending_def)
qed

lemma refresh_in_flight_after_render:
  "isRefreshing c \<Longrightarrow>
   step (step c Render) (Refresh talentUUID analyticsData) = step c Render"
  by (simp add: refreshScore_rejected)

lemma foldl_onePending:
  "onePending c \<Longrightarrow> renderedBeforeRefresh events \<Longrightarrow> onePending (foldl step c events)"
proof (induction events arbitrary: c rule: renderedBeforeRefresh.induct)
  case 1
  then show ?case by simp
next
  case (2 talentUUID analyticsData events)
  from refresh_after_render_onePending[OF "2.prems"(1)]
  have "onePending (step (step c Render) (Refresh talentUUID analyticsData))" .
  moreover from "2.prems"(2) have "renderedBeforeRefresh events" by simp
  ultimately have "onePending (foldl step (step (step c Render) (Refresh talentUUID analyticsData)) events)"
    by (rule "2.IH")
  then show ?case by (simp del: step.simps)
next
  case (3 talentUUID analyticsData events)
  then show ?case by simp
qed (simp_all del: step.simps
       add: render_onePending settled_onePending clearError_onePending)

lemma run_onePending: "renderedBeforeRefresh events \<Longrightarrow> onePending (run events)"
  unfolding run_def
  by (rule foldl_onePending) (simp_all add: onePending_def initialController_def)

text \<open>
  Claim C8, as amended. The guard of \<^verbatim>\<open>refreshScore\<close> reads the \<^verbatim>\<open>isRefreshing\<close> constant of
  the render that made the function. When the identifier is empty or that constant is
  true, an invocation leaves the whole state as it is: no state cell changes, no request
  is issued, no event is captured; so it is for the function of a render that has seen
  a refresh in flight. After any sequence of renders, invocations, settlements and
  clear actions on a fresh hook in which every invocation comes directly after a
  render, at most one \<^verbatim>\<open>triggerScoreCalculation\<close> call is pending, and while one is
  pending the hook is refreshing.
\<close>

theorem refresh_guard:
  "(talentUUID = [] \<or> isRefreshingConst \<longrightarrow>
        refreshScore talentUUID analyticsData isRefreshingConst c = c)
   \<and> (talentUUID = [] \<or> renderedIsRefreshing c \<longrightarrow>
        step c (Refresh talentUUID analyticsData) = c)
   \<and> (isRefreshing c \<longrightarrow>
        step (step c Render) (Refresh talentUUID analyticsData) = step c Render)
   \<and> (renderedBeforeRefresh events \<longrightarrow>
        inFlight (run events) \<le> 1
      \<and> (inFlight (run events) = 1 \<longrightarrow> isRefreshing (run events)))"
proof -
  have a: "talentUUID = [] \<or> isRefreshingConst \<longrightarrow>
        refreshScore talentUUID analyticsData isRefreshingConst c = c"
    using refreshScore_rejected[of talentUUID isRefreshingConst analyticsData c] by blast
  have b: "talentUUID = [] \<or> renderedIsRefreshing c \<longrightarrow>
        step c (Refresh talentUUID analyticsData) = c"
    using refreshScore_rejected[of talentUUID "renderedIsRefreshing c" analyticsData c] by simp
  have d: "isRefreshing c \<longrightarrow>
        step (step c Render) (Refresh talentUUID analyticsData) = step c Render"
    using refresh_in_flight_after_render[of c talentUUID analyticsData] by blast
  have e: "renderedBeforeRefresh events \<longrightarrow>
        inFlight (run events) \<le> 1
      \<and> (inFlight (run events) = 1 \<longrightarrow> isRefreshing (run events))"
    using run_onePending[of events] by (auto simp: onePending_def)
  from a b d e show ?thesis by (intro conjI)
qed

theorem refresh_guard_witness:
  "renderedBeforeRefresh [Render, Refresh ''talent-1'' None, Render, Refresh ''talent-1'' None]
   \<and> inFlight (run [Render, Refresh ''talent-1'' None, Render, Refresh ''talent-1'' None]) \<le> 1
   \<and> inFlight (run [Render, Refresh ''talent-1'' None, Render, Refresh ''talent-1'' None]) = 1
   \<and> issued (run [Render, Refresh ''talent-1'' None, Render, Refresh ''talent-1'' None])
       = [''talent-1'']
   \<and> isRefreshing (run [Render, Refresh ''talent-1'' None])
   \<and> step (step (run [Render, Refresh ''talent-1'' None]) Render) (Refresh ''talent-1'' None)
       = step (run [Render, Refresh ''talent-1'' None]) Render
   \<and> refreshScore ''talent-1'' None True initialController = initialController
   \<and> refreshScore [] None False initialController = initialController"
proof -
  have r: "renderedBeforeRefresh [Render, Refresh ''talent-1'' None, Render, Refresh ''talent-1'' None]"
    by simp
  have h: "isRefreshing (run [Render, Refresh ''talent-1'' None])" by code_simp
  have i: "inFlight (run [Render, Refresh ''talent-1'' None, Render, Refresh ''talent-1'' None]) = 1"
    "issued (run [Render, Refresh ''talent-1'' None, Render, Refresh ''talent-1'' None])
       = [''talent-1'']"
    by code_simp+
  note a = refresh_guard[where c = "run [Render, Refresh ''talent-1'' None]"
      and talentUUID = "''talent-1''" and analyticsData = None
      and events = "[Render, Refresh ''talent-1'' None, Render, Refresh ''talent-1'' None]"]
  note b = refresh_guard[where c = initialController and talentUUID = "''talent-1''"
      and analyticsData = None and isRefreshingConst = True]
  note d = refresh_guard[where c = initialController and talentUUID = "[]"
      and analyticsData = None and isRefreshingConst = False]
  from a r have "inFlight (run [Render, Refresh ''talent-1'' None, Render, Refresh ''talent-1'' None]) \<le> 1"
    by blast
  moreover from a h have
    "step (step (run [Render, Refresh ''talent-1'' None]) Render) (Refresh ''talent-1'' None)
       = step (run [Render, Refresh ''talent-1'' None]) Render"
    by blast
  moreover from b have "refreshScore ''talent-1'' None True initialController = initialController"
    by blast
  moreover from d have "refreshScore [] None False initialController = initialController"
    by blast
  ultimately show ?thesis using r h i by (intro conjI)
qed

text \<open>
  Claim C8 as it is stated fails on two invocations of the function of one render. The
  first one sets the cell and issues a request; the second one is made while that
  refresh is in flight, reads the same constant \<^verbatim>\<open>isRefreshing = false\<close> as the first, and
  issues a second request: two calls are pending.
\<close>

theorem second_call_of_one_render_issues_request:
  "isRefreshing (run [Render, Refresh ''talent-1'' None])
   \<and> inFlight (run [Render, Refresh ''talent-1'' None]) = 1
   \<and> inFlight (run [Render, Refresh ''talent-1'' None, Refresh ''talent-1'' None]) = 2
   \<and> issued (run [Render, Refresh ''talent-1'' None, Refresh ''talent-1'' None])
       = [''talent-1'', ''talent-1'']"
  by code_simp

text \<open>
  Claim C2, as amended. An invocation with an identifier, by a function whose render
  saw the hook not refreshing, sets the in-flight flag, clears both messages and issues
  one request. When the request succeeds the success message is set and the error is
  left as it is. When it fails, by an answer without success or by a rejection, the
  error message is set (the answer's error, the thrown error's message, or the fallback
  text) and the in-flight flag is cleared. An error message that is set is removed by no
  render, no settlement and no ignored invocation: only \<^verbatim>\<open>clearError\<close> or the start of
  the next accepted refresh removes it. \<^verbatim>\<open>clearError\<close> removes it and leaves the in-flight
  flag alone.
\<close>

theorem refresh_state_machine:
  "(talentUUID \<noteq> [] \<and> \<not> isRefreshingConst \<longrightarrow>
        isRefreshing (refreshScore talentUUID analyticsData isRefreshingConst c)
      \<and> refreshError (refreshScore talentUUID analyticsData isRefreshingConst c) = None
      \<and> successMessage (refreshScore talentUUID analyticsData isRefreshingConst c) = None
      \<and> inFlight (refreshScore talentUUID analyticsData isRefreshingConst c) = inFlight c + 1)
   \<and> (success result \<longrightarrow>
        successMessage (refreshSettled onSuccess (Inr result) c) = Some ''Calculation enqueued''
      \<and> refreshError (refreshSettled onSuccess (Inr result) c) = refreshError c)
   \<and> (\<not> success result \<longrightarrow>
        refreshError (refreshSettled onSuccess (Inr result) c)
          = Some (orString (result_error result) ''Failed to trigger calculation'')
      \<and> truthy (refreshError (refreshSettled onSuccess (Inr result) c))
      \<and> \<not> isRefreshing (refreshSettled onSuccess (Inr result) c))
   \<and> refreshError (refreshSettled onSuccess (Inl err) c)
        = Some (case err of ErrorObject message \<Rightarrow> message
                | OtherThrown \<Rightarrow> ''Failed to trigger calculation'')
   \<and> \<not> isRefreshing (refreshSettled onSuccess (Inl err) c)
   \<and> (refreshError c \<noteq> None \<and> refreshError (step c e) = None \<longrightarrow>
        e = ClearError \<or> accepted c e)
   \<and> refreshError (clearError c) = None
   \<and> isRefreshing (clearError c) = isRefreshing c"
proof -
  have t: "\<not> success result \<longrightarrow>
     truthy (refreshError (refreshSettled onSuccess (Inr result) c))"
    using refreshSettled_failure(1)[of result onSuccess c]
      orString_truthy[of "''Failed to trigger calculation''" "result_error result"] by simp
  show ?thesis
    using refreshScore_accepted(1-4)[of talentUUID isRefreshingConst analyticsData c]
      refreshSettled_success(1,2)[of result onSuccess c]
      refreshSettled_failure[of result onSuccess c] t
      refreshSettled_thrown[of onSuccess err c]
      error_removed_only_by[of c e] clearError_fields(1,2)[of c]
    by blast
qed

theorem refresh_state_machine_witness:
  "''talent-1'' \<noteq> []
   \<and> \<not> isRefreshing initialController
   \<and> isRefreshing (refreshScore ''talent-1'' None False initialController)
   \<and> inFlight (refreshScore ''talent-1'' None False initialController)
       = inFlight initialController + 1
   \<and> successMessage (refreshSettled True (Inr \<lparr>success = True, result_error = None\<rparr>)
        (refreshScore ''talent-1'' None False initialController)) = Some ''Calculation enqueued''
   \<and> refreshError (refreshSettled True (Inr \<lparr>success = False, result_error = Some ''rate limited''\<rparr>)
        (refreshScore ''talent-1'' None False initialController))
       = Some (orString (Some ''rate limited'') ''Failed to trigger calculation'')
   \<and> \<not> isRefreshing (refreshSettled True (Inr \<lparr>success = False, result_error = Some ''rate limited''\<rparr>)
        (refreshScore ''talent-1'' None False initialController))
   \<and> refreshError (run failedRefresh) \<noteq> None
   \<and> refreshError (step (run failedRefresh) (Refresh ''talent-1'' None)) = None
   \<and> accepted (run failedRefresh) (Refresh ''talent-1'' None)"
proof -
  have h1: "''talent-1'' \<noteq> []" by simp
  have h2: "\<not> isRefreshing initialController" by (simp add: initialController_def)
  have h3: "success \<lparr>success = True, result_error = None\<rparr>" by simp
  have h4: "\<not> success \<lparr>success = False, result_error = Some ''rate limited''\<rparr>" by simp
  have h5: "refreshError (run failedRefresh) \<noteq> None" by code_simp
  have h6: "refreshError (step (run failedRefresh) (Refresh ''talent-1'' None)) = None"
    by code_simp
  have h7: "Refresh ''talent-1'' None \<noteq> ClearError" by simp
  note a = refresh_state_machine[where talentUUID = "''talent-1''" and c = initialController
      and analyticsData = None and isRefreshingConst = False]
  note b = refresh_state_machine[where c = "refreshScore ''talent-1'' None False initialController"
      and result = "\<lparr>success = True, result_error = None\<rparr>" and onSuccess = True]
  note c = refresh_state_machine[where c = "refreshScore ''talent-1'' None False initialController"
      and result = "\<lparr>success = False, result_error = Some ''rate limited''\<rparr>"
      and onSuccess = True]
  note d = refresh_state_machine[where c = "run failedRefresh"
      and e = "Refresh ''talent-1'' None"]
  from a h1 have
    "isRefreshing (refreshScore ''talent-1'' None False initialController)"
    "inFlight (refreshScore ''talent-1'' None False initialController)
       = inFlight initialController + 1"
    by blast+
  moreover from b h3 have
    "successMessage (refreshSettled True (Inr \<lparr>success = True, result_error = None\<rparr>)
        (refreshScore ''talent-1'' None False initialController)) = Some ''Calculation enqueued''"
    by blast
  moreover from c h4 have
    "refreshError (refreshSettled True (Inr \<lparr>success = False, result_error = Some ''rate limited''\<rparr>)
        (refreshScore ''talent-1'' None False initialController))
       = Some (orString (result_error \<lparr>success = False, result_error = Some ''rate limited''\<rparr>)
            ''Failed to trigger calculation'')"
    "\<not> isRefreshing (refreshSettled True (Inr \<lparr>success = False, result_error = Some ''rate limited''\<rparr>)
        (refreshScore ''talent-1'' None False initialController))"
    by blast+
  moreover from d h5 h6 h7 have "accepted (run failedRefresh) (Refresh ''talent-1'' None)"
    by blast
  ultimately show ?thesis using h1 h2 h5 h6 by simp
qed

text \<open>
  Claim C2 as it is stated fails twice. After a refresh that succeeds the hook is still
  refreshing: the success path never clears the in-flight flag. And an error message
  that a failed refresh has set is removed by the next invocation of \<^verbatim>\<open>refreshScore\<close>,
  with no clear action.
\<close>

theorem success_stays_refreshing_and_refresh_clears_error:
  "isRefreshing (run [Refresh ''talent-1'' None,
                      Settled True (Inr \<lparr>success = True, result_error = None\<rparr>)])
   \<and> refreshError (run failedRefresh) = Some ''network down''
   \<and> refreshError (run (failedRefresh @ [Refresh ''talent-1'' None])) = None"
  by code_simp

end
